theory Spec2Isabelle
  imports Complex_Main "HOL-Library.Sublist"
begin

text \<open>
  A shallow embedding of the Lighter connector: the nonce manager and the
  authenticator, the connect and subscribe loops of the two WebSocket data sources,
  and the order message handlers of the spot and the perpetual connector. State is
  passed explicitly and returned updated, an exception is a value of \<open>py_error\<close>,
  and what lies outside the connector (the SDK's signer, the WebSocket transport, the
  clock, the framework's order tracker) is a parameter of the function that uses it.
\<close>

section \<open>Nonce manager (lighter\_auth.py, class \_NonceManager)\<close>

text \<open>
  The Python class holds one integer \<open>_last\<close> and a lock. Every method body runs
  under the lock, so each call is one atomic step on the counter and any run of
  concurrent callers is some sequence of such steps. Python integers are unbounded,
  hence \<open>int\<close>.
\<close>

record NonceManager =
  nm_last :: int

definition NonceManager_init :: NonceManager where
  "NonceManager_init = \<lparr>nm_last = 0\<rparr>"

text \<open>\<open>next\<close>: increment \<open>_last\<close>, return the new value.\<close>

definition nonce_next :: "NonceManager \<Rightarrow> int \<times> NonceManager" where
  "nonce_next m = (nm_last m + 1, m\<lparr>nm_last := nm_last m + 1\<rparr>)"

text \<open>\<open>set\<close>: store the value only when it is greater than \<open>_last\<close>.\<close>

definition nonce_set :: "int \<Rightarrow> NonceManager \<Rightarrow> NonceManager" where
  "nonce_set v m = (if v > nm_last m then m\<lparr>nm_last := v\<rparr> else m)"

text \<open>\<open>n\<close> successive calls of \<open>next\<close> on one instance, with the values in call order.\<close>

fun next_calls :: "nat \<Rightarrow> NonceManager \<Rightarrow> int list \<times> NonceManager" where
  "next_calls 0 m = ([], m)"
| "next_calls (Suc n) m =
     (case nonce_next m of (v, m') \<Rightarrow>
        (case next_calls n m' of (vs, m'') \<Rightarrow> (v # vs, m'')))"


section \<open>Python values used by the connector\<close>

text \<open>
  Decoded JSON, as \<open>json.loads\<close> yields it: \<open>None\<close>, booleans, numbers, strings,
  lists and dictionaries with string keys. A dictionary is an association list with
  distinct keys, looked up with \<open>map_of\<close>. Numbers are exact (Python's \<open>1 == 1.0\<close>
  holds here as well; the rounding of floats is not represented).
\<close>

datatype json =
    JNull
  | JBool bool
  | JNum real
  | JStr string
  | JList "json list"
  | JDict "(string \<times> json) list"

type_synonym py_dict = "(string \<times> json) list"

text \<open>Exceptions that the translated functions raise or pass on.\<close>

datatype py_error =
    KeyError string
  | TypeError
  | SignerError string
  | ConnectError string
  | SendError string
  | LookupFailure string
  | AttributeError string
  | OverflowError


text \<open>
  Python's \<open>==\<close> on decoded values. \<open>True\<close> and \<open>False\<close> are the numbers 1 and
  0; lists are equal element by element; dictionaries are equal when they have the
  same keys with equal values, in any order. Numbers are reals, so the float that is
  not a number (and differs from itself) is not represented.
\<close>

fun py_eq :: "json \<Rightarrow> json \<Rightarrow> bool" where
  "py_eq JNull JNull = True"
| "py_eq (JBool a) (JBool b) = (a = b)"
| "py_eq (JBool a) (JNum y) = ((if a then 1 else 0) = y)"
| "py_eq (JNum x) (JBool b) = (x = (if b then 1 else 0))"
| "py_eq (JNum x) (JNum y) = (x = y)"
| "py_eq (JStr s) (JStr t) = (s = t)"
| "py_eq (JList xs) (JList ys) = list_all2 py_eq xs ys"
| "py_eq (JDict d) (JDict e) =
     (length d = length e
      \<and> list_all (\<lambda>(k, v). case map_of e k of None \<Rightarrow> False | Some w \<Rightarrow> py_eq v w) d)"
| "py_eq _ _ = False"

text \<open>\<open>k in d\<close>, \<open>d.get(k)\<close> (absent gives \<open>None\<close>) and \<open>d.get(k, default)\<close>.\<close>

definition has_key :: "string \<Rightarrow> py_dict \<Rightarrow> bool" where
  "has_key k d = (map_of d k \<noteq> None)"

definition dict_get :: "string \<Rightarrow> py_dict \<Rightarrow> json" where
  "dict_get k d = (case map_of d k of None \<Rightarrow> JNull | Some v \<Rightarrow> v)"

definition dict_get_default :: "string \<Rightarrow> json \<Rightarrow> py_dict \<Rightarrow> json" where
  "dict_get_default k dflt d = (case map_of d k of None \<Rightarrow> dflt | Some v \<Rightarrow> v)"

text \<open>
  The substring test \<open>p in s\<close> on strings, and \<open>str.lower\<close>. Strings are byte
  strings; \<open>lower\<close> changes the ASCII capitals only.
\<close>

fun starts_with :: "string \<Rightarrow> string \<Rightarrow> bool" where
  "starts_with s [] = True"
| "starts_with [] (c # p) = False"
| "starts_with (x # s) (c # p) = (x = c \<and> starts_with s p)"

fun contains :: "string \<Rightarrow> string \<Rightarrow> bool" where
  "contains [] p = (p = [])"
| "contains (x # s) p = (starts_with (x # s) p \<or> contains s p)"

definition lower_char :: "char \<Rightarrow> char" where
  "lower_char c =
     (case map_of (zip ''ABCDEFGHIJKLMNOPQRSTUVWXYZ'' ''abcdefghijklmnopqrstuvwxyz'') c of
        None \<Rightarrow> c
      | Some l \<Rightarrow> l)"

definition lower :: "string \<Rightarrow> string" where
  "lower s = map lower_char s"

section \<open>Constants (lighter\_constants.py)\<close>

definition ORDER_TYPE_LIMIT :: json where
  "ORDER_TYPE_LIMIT = JNum 0"

definition ORDER_TIME_IN_FORCE_IMMEDIATE_OR_CANCEL :: json where
  "ORDER_TIME_IN_FORCE_IMMEDIATE_OR_CANCEL = JNum 0"

definition ORDER_TIME_IN_FORCE_GOOD_TILL_TIME :: json where
  "ORDER_TIME_IN_FORCE_GOOD_TILL_TIME = JNum 1"

definition CREATE_ORDER_URL :: string where
  "CREATE_ORDER_URL = ''/api/v1/sendTx''"

definition CANCEL_ALL_ORDERS_URL :: string where
  "CANCEL_ALL_ORDERS_URL = ''/api/v1/sendTxBatch''"

definition ACCOUNT_INFO_URL :: string where
  "ACCOUNT_INFO_URL = ''/api/v1/account''"

definition BASE_URL :: string where
  "BASE_URL = ''https://mainnet.zklighter.elliot.ai''"

definition WS_MAX_SUBSCRIPTIONS :: int where
  "WS_MAX_SUBSCRIPTIONS = 1000"

definition INITIAL_BACKOFF :: real where
  "INITIAL_BACKOFF = 1"

definition MAX_BACKOFF :: real where
  "MAX_BACKOFF = 60"

definition BACKOFF_MULTIPLIER :: real where
  "BACKOFF_MULTIPLIER = 2"

definition TRADES_ENDPOINT_NAME :: string where
  "TRADES_ENDPOINT_NAME = ''trades''"

definition DEPTH_ENDPOINT_NAME :: string where
  "DEPTH_ENDPOINT_NAME = ''orderbook''"

section \<open>Authentication (lighter\_auth.py, class LighterAuth)\<close>

text \<open>
  The SDK's \<open>SignerClient\<close> is an external library: its four methods are parameters
  of the model, and each may raise. The token method also gets the clock reading at the
  call. The signing methods take the keyword arguments in the order of the source and
  the nonce last.
\<close>

record SignerClient =
  create_auth_token_with_expiry :: "real \<Rightarrow> int \<Rightarrow> py_error + string"
  sign_create_order ::
    "json \<Rightarrow> json \<Rightarrow> json \<Rightarrow> json \<Rightarrow> json \<Rightarrow> json \<Rightarrow> json \<Rightarrow> int \<Rightarrow> py_error + py_dict"
  sign_cancel_order :: "json \<Rightarrow> json \<Rightarrow> int \<Rightarrow> py_error + py_dict"
  sign_cancel_all_orders :: "json \<Rightarrow> int \<Rightarrow> py_error + py_dict"

text \<open>
  The mutable fields of a \<open>LighterAuth\<close>: the nonce manager and the token cache
  (\<open>_auth_token\<close>, initially \<open>None\<close>, and \<open>_auth_token_expiry\<close>, initially 0).
\<close>

record LighterAuth =
  nonce :: NonceManager
  auth_token :: "string option"
  auth_token_expiry :: real

definition LighterAuth_init :: LighterAuth where
  "LighterAuth_init =
     \<lparr>nonce = NonceManager_init, auth_token = None, auth_token_expiry = 0\<rparr>"

text \<open>\<open>set_auth_token\<close>; \<open>now\<close> is what \<open>time.time()\<close> returns.\<close>

definition set_auth_token :: "real \<Rightarrow> string \<Rightarrow> int \<Rightarrow> LighterAuth \<Rightarrow> LighterAuth" where
  "set_auth_token now token expiry_seconds self =
     self\<lparr>auth_token := Some token, auth_token_expiry := now + real_of_int expiry_seconds\<rparr>"

text \<open>
  \<open>create_auth_token\<close>: ask the signer, store the token, return it. Nothing in the
  body reads the cache. An exception of the signer leaves the cache as it was.
\<close>

definition create_auth_token ::
  "SignerClient \<Rightarrow> real \<Rightarrow> int \<Rightarrow> LighterAuth \<Rightarrow> (py_error + string) \<times> LighterAuth" where
  "create_auth_token signer now expiry_seconds self =
     (case create_auth_token_with_expiry signer now expiry_seconds of
        Inl e \<Rightarrow> (Inl e, self)
      | Inr token \<Rightarrow> (Inr token, set_auth_token now token expiry_seconds self))"

definition get_next_nonce :: "LighterAuth \<Rightarrow> int \<times> LighterAuth" where
  "get_next_nonce self =
     (case nonce_next (nonce self) of (n, m) \<Rightarrow> (n, self\<lparr>nonce := m\<rparr>))"

definition sign_create_order_params ::
  "SignerClient \<Rightarrow> py_dict \<Rightarrow> int \<Rightarrow> py_error + py_dict" where
  "sign_create_order_params signer params n =
     sign_create_order signer
       (dict_get ''market_id'' params)
       (dict_get ''is_buy'' params)
       (dict_get ''base_amount'' params)
       (dict_get ''price'' params)
       (dict_get_default ''order_type'' ORDER_TYPE_LIMIT params)
       (dict_get_default ''time_in_force'' ORDER_TIME_IN_FORCE_GOOD_TILL_TIME params)
       (dict_get ''client_order_index'' params)
       n"

definition sign_cancel_order_params ::
  "SignerClient \<Rightarrow> py_dict \<Rightarrow> int \<Rightarrow> py_error + py_dict" where
  "sign_cancel_order_params signer params n =
     sign_cancel_order signer
       (dict_get ''market_id'' params)
       (dict_get ''order_index'' params)
       n"

definition sign_cancel_all_orders_params ::
  "SignerClient \<Rightarrow> py_dict \<Rightarrow> int \<Rightarrow> py_error + py_dict" where
  "sign_cancel_all_orders_params signer params n =
     sign_cancel_all_orders signer
       (dict_get_default ''time_in_force'' ORDER_TIME_IN_FORCE_IMMEDIATE_OR_CANCEL params)
       n"

text \<open>
  \<open>add_auth_to_params_post\<close>. The argument \<open>params\<close> is the decoded body
  (\<open>None\<close>, or the dictionary that \<open>json.loads\<close> yields) and the result is the payload
  handed to \<open>json.dumps\<close>; the text codec itself is the standard library's and is not
  part of the model. The nonce is taken first, before any branch. The branches are
  tested in the order of the source: \<open>"/sendTx" in url\<close>, then
  \<open>"/sendTxBatch" in url\<close>, then the rest.
\<close>

definition add_auth_to_params_post ::
  "SignerClient \<Rightarrow> py_dict option \<Rightarrow> string \<Rightarrow> LighterAuth
     \<Rightarrow> (py_error + py_dict) \<times> LighterAuth" where
  "add_auth_to_params_post signer params url self =
     (case get_next_nonce self of (n, self') \<Rightarrow>
        (let request_params = (case params of None \<Rightarrow> [] | Some d \<Rightarrow> d) in
         if contains url ''/sendTx'' then
           (if has_key ''market_id'' request_params \<and> has_key ''base_amount'' request_params
            then (sign_create_order_params signer request_params n, self')
            else if has_key ''order_index'' request_params
            then (sign_cancel_order_params signer request_params n, self')
            else (Inr [(''tx'', JDict request_params), (''nonce'', JNum (real_of_int n))], self'))
         else if contains url ''/sendTxBatch'' then
           (sign_cancel_all_orders_params signer request_params n, self')
         else (Inr request_params, self')))"

text \<open>
  Requests, with the fields the framework's classes have. A REST request has
  \<open>headers\<close>, which is \<open>None\<close> or a dictionary of strings, and its data is the
  decoded body. A WebSocket request (\<open>WSRequest\<close>, \<open>WSJSONRequest\<close>) has a payload,
  \<open>throttler_limit_id\<close> and \<open>is_auth_required\<close>, and no \<open>headers\<close> attribute.
\<close>

datatype RESTMethod = GET | POST | PUT | DELETE

record RESTRequest =
  rest_method :: RESTMethod
  rest_url :: string
  rest_headers :: "(string \<rightharpoonup> string) option"
  rest_data :: "py_dict option"

record WSRequest =
  ws_payload :: py_dict
  throttler_limit_id :: "string option"
  is_auth_required :: bool

text \<open>
  The guard of both authenticate methods,
  \<open>self._auth_token and time.time() < self._auth_token_expiry\<close>, and the header they
  write.
\<close>

definition token_usable :: "real \<Rightarrow> LighterAuth \<Rightarrow> bool" where
  "token_usable now self =
     (case auth_token self of
        None \<Rightarrow> False
      | Some t \<Rightarrow> t \<noteq> [] \<and> now < auth_token_expiry self)"

definition with_bearer :: "string \<Rightarrow> (string \<rightharpoonup> string) option \<Rightarrow> (string \<rightharpoonup> string) option" where
  "with_bearer t hs =
     Some ((case hs of None \<Rightarrow> Map.empty | Some h \<Rightarrow> h)(''Authorization'' \<mapsto> ''Bearer '' @ t))"

definition rest_authenticate ::
  "SignerClient \<Rightarrow> real \<Rightarrow> RESTRequest \<Rightarrow> LighterAuth
     \<Rightarrow> (py_error + RESTRequest) \<times> LighterAuth" where
  "rest_authenticate signer now request self =
     (let request1 =
        (case auth_token self of
           None \<Rightarrow> request
         | Some t \<Rightarrow>
             if t \<noteq> [] \<and> now < auth_token_expiry self
             then request\<lparr>rest_headers := with_bearer t (rest_headers request)\<rparr>
             else request)
      in if rest_method request1 = POST then
           (case add_auth_to_params_post signer (rest_data request1) (rest_url request1) self of
              (Inl e, self') \<Rightarrow> (Inl e, self')
            | (Inr payload, self') \<Rightarrow> (Inr (request1\<lparr>rest_data := Some payload\<rparr>), self'))
         else (Inr request1, self))"

text \<open>
  \<open>ws_authenticate\<close>: under the same guard the body reads \<open>request.headers\<close>, which
  a WebSocket request does not have, so the read raises \<open>AttributeError\<close>; when the
  guard is false the request is returned as it came.
\<close>

definition ws_authenticate ::
  "real \<Rightarrow> WSRequest \<Rightarrow> LighterAuth \<Rightarrow> (py_error + WSRequest) \<times> LighterAuth" where
  "ws_authenticate now request self =
     (case auth_token self of
        None \<Rightarrow> (Inr request, self)
      | Some t \<Rightarrow>
          if t \<noteq> [] \<and> now < auth_token_expiry self
          then (Inl (AttributeError ''headers''), self)
          else (Inr request, self))"

section \<open>WebSocket data sources\<close>

text \<open>
  What the data sources do to the outside is kept in the state as a trace: the
  durations handed to \<open>asyncio.sleep\<close>, the payloads sent, the log records (level,
  message, arguments formatted into it).
\<close>

datatype log_level = DEBUG | INFO | WARNING | ERROR

datatype log_record = Log log_level string "json list"

text \<open>
  One call of \<open>ws.connect\<close> either returns or raises; \<open>ConnectFails msg\<close> carries
  \<open>str(e)\<close>. The transport is a parameter: the outcome of the attempt with a given
  number.
\<close>

datatype connect_outcome = ConnectOk | ConnectFails string

text \<open>The classification of a connect failure, on the lower-cased message.\<close>

definition is_rate_limit_error :: "string \<Rightarrow> bool" where
  "is_rate_limit_error msg =
     (let error_msg = lower msg in
        contains error_msg ''429'' \<or> contains error_msg ''too many''
          \<or> contains error_msg ''rate limit'')"

subsection \<open>lighter\_api\_order\_book\_data\_source.py\<close>

record OrderBookDataSource =
  ob_current_backoff :: real
  subscription_count :: int
  ob_slept :: "real list"
  ob_sent :: "py_dict list"
  ob_send_calls :: nat
  ob_log :: "log_record list"

definition OrderBookDataSource_init :: OrderBookDataSource where
  "OrderBookDataSource_init =
     \<lparr>ob_current_backoff = INITIAL_BACKOFF, subscription_count = 0, ob_slept = [],
      ob_sent = [], ob_send_calls = 0, ob_log = []\<rparr>"

text \<open>
  The body of one failed attempt that was classified as a rate limit: warn, sleep for
  the current backoff, then store the multiplied and capped backoff.
\<close>

definition ob_back_off :: "OrderBookDataSource \<Rightarrow> OrderBookDataSource" where
  "ob_back_off self =
     self\<lparr>ob_log := ob_log self @
              [Log WARNING ''Rate limit hit when connecting to WebSocket. Backing off''
                 [JNum (ob_current_backoff self)]],
           ob_slept := ob_slept self @ [ob_current_backoff self],
           ob_current_backoff := min (ob_current_backoff self * BACKOFF_MULTIPLIER) MAX_BACKOFF\<rparr>"

definition ob_connected :: "OrderBookDataSource \<Rightarrow> OrderBookDataSource" where
  "ob_connected self =
     self\<lparr>ob_current_backoff := INITIAL_BACKOFF,
          ob_log := ob_log self @ [Log INFO ''Successfully connected'' []]\<rparr>"

text \<open>
  \<open>_connected_websocket_assistant\<close>: the \<open>while True\<close> loop, from attempt number
  \<open>n\<close>. \<open>Inr ()\<close> is the return of the connected assistant, \<open>Inl e\<close> the exception
  that leaves the loop, \<open>None\<close> a loop that never ends.
\<close>

partial_function (option) ob_connected_websocket_assistant ::
  "(nat \<Rightarrow> connect_outcome) \<Rightarrow> nat \<Rightarrow> OrderBookDataSource
     \<Rightarrow> ((py_error + unit) \<times> OrderBookDataSource) option" where
  "ob_connected_websocket_assistant connect n self =
     (case connect n of
        ConnectOk \<Rightarrow> Some (Inr (), ob_connected self)
      | ConnectFails msg \<Rightarrow>
          if is_rate_limit_error msg
          then ob_connected_websocket_assistant connect (Suc n) (ob_back_off self)
          else Some (Inl (ConnectError msg), self))"

text \<open>
  \<open>ws.send\<close>: the transport decides whether the call with a given number (counted
  over the life of the data source, failed calls included) raises.
\<close>

definition ob_send ::
  "(nat \<Rightarrow> py_error option) \<Rightarrow> py_dict \<Rightarrow> OrderBookDataSource
     \<Rightarrow> (py_error + unit) \<times> OrderBookDataSource" where
  "ob_send send payload self =
     (case send (ob_send_calls self) of
        Some e \<Rightarrow> (Inl e, self\<lparr>ob_send_calls := Suc (ob_send_calls self)\<rparr>)
      | None \<Rightarrow> (Inr (), self\<lparr>ob_sent := ob_sent self @ [payload],
                                ob_send_calls := Suc (ob_send_calls self)\<rparr>))"

definition subscribe_payload :: "string \<Rightarrow> json \<Rightarrow> py_dict" where
  "subscribe_payload channel market_id =
     [(''method'', JStr ''subscribe''), (''channel'', JStr channel), (''market_id'', market_id)]"

text \<open>
  The \<open>for\<close> loop of \<open>_subscribe_channels\<close>. The limit is tested once per trading
  pair, before its two sends; the counter goes up by one after each send that returned.
  An exception leaves the loop with the state reached so far. The connector's
  \<open>exchange_symbol_associated_to_pair\<close> is a parameter; \<open>get_market_id\<close> is
  \<open>symbol_to_market_id.get(symbol, 0)\<close>.
\<close>

fun subscribe_loop ::
  "(string \<Rightarrow> py_error + string) \<Rightarrow> (string \<rightharpoonup> json) \<Rightarrow> (nat \<Rightarrow> py_error option)
     \<Rightarrow> string list \<Rightarrow> OrderBookDataSource \<Rightarrow> (py_error + unit) \<times> OrderBookDataSource" where
  "subscribe_loop symbol_of symbol_to_market_id send [] self = (Inr (), self)"
| "subscribe_loop symbol_of symbol_to_market_id send (trading_pair # rest) self =
     (if subscription_count self \<ge> WS_MAX_SUBSCRIPTIONS
      then (Inr (), self\<lparr>ob_log := ob_log self @
              [Log WARNING ''Approaching WebSocket subscription limit. Skipping additional subscriptions.''
                 [JNum (real_of_int WS_MAX_SUBSCRIPTIONS)]]\<rparr>)
      else
        (case symbol_of trading_pair of
           Inl e \<Rightarrow> (Inl e, self)
         | Inr symbol \<Rightarrow>
             (let market_id = (case symbol_to_market_id symbol of None \<Rightarrow> JNum 0 | Some i \<Rightarrow> i)
              in case ob_send send (subscribe_payload TRADES_ENDPOINT_NAME market_id) self of
                   (Inl e, self1) \<Rightarrow> (Inl e, self1)
                 | (Inr u, self1) \<Rightarrow>
                     (let self2 = self1\<lparr>subscription_count := subscription_count self1 + 1\<rparr>
                      in case ob_send send (subscribe_payload DEPTH_ENDPOINT_NAME market_id) self2 of
                           (Inl e, self3) \<Rightarrow> (Inl e, self3)
                         | (Inr u, self3) \<Rightarrow>
                             (let self4 = self3\<lparr>subscription_count := subscription_count self3 + 1\<rparr>;
                                  self5 = self4\<lparr>ob_log := ob_log self4 @
                                    [Log INFO ''Subscribed to public order book and trade channels''
                                       [JStr trading_pair, JNum (real_of_int (subscription_count self4))]]\<rparr>
                              in subscribe_loop symbol_of symbol_to_market_id send rest self5)))))"

text \<open>
  \<open>_subscribe_channels\<close>: the loop inside \<open>try\<close>; an exception is logged as an
  error (one message for "too many subscriptions", another for the rest) and raised
  again.
\<close>

definition str_of_error :: "py_error \<Rightarrow> string" where
  "str_of_error e =
     (case e of KeyError s \<Rightarrow> s | TypeError \<Rightarrow> ''TypeError'' | SignerError s \<Rightarrow> s
      | ConnectError s \<Rightarrow> s | SendError s \<Rightarrow> s | LookupFailure s \<Rightarrow> s
      | AttributeError s \<Rightarrow> s | OverflowError \<Rightarrow> ''OverflowError'')"

definition subscribe_channels ::
  "(string \<Rightarrow> py_error + string) \<Rightarrow> (string \<rightharpoonup> json) \<Rightarrow> (nat \<Rightarrow> py_error option)
     \<Rightarrow> string list \<Rightarrow> OrderBookDataSource \<Rightarrow> (py_error + unit) \<times> OrderBookDataSource" where
  "subscribe_channels symbol_of symbol_to_market_id send trading_pairs self =
     (case subscribe_loop symbol_of symbol_to_market_id send trading_pairs self of
        (Inr u, self') \<Rightarrow> (Inr u, self')
      | (Inl e, self') \<Rightarrow>
          (if contains (lower (str_of_error e)) ''too many subscriptions''
           then (Inl e, self'\<lparr>ob_log := ob_log self' @
                   [Log ERROR ''WebSocket subscription limit exceeded.''
                      [JNum (real_of_int WS_MAX_SUBSCRIPTIONS)]]\<rparr>)
           else (Inl e, self'\<lparr>ob_log := ob_log self' @
                   [Log ERROR ''Unexpected error occurred subscribing to order book data streams.'' []]\<rparr>)))"

subsection \<open>lighter\_api\_user\_stream\_data\_source.py\<close>

text \<open>
  The user stream data source holds the authenticator (the object it shares with the
  connector), the token it got last and its own backoff.
\<close>

record UserStreamDataSource =
  us_auth :: LighterAuth
  us_auth_token :: "string option"
  us_current_backoff :: real
  us_slept :: "real list"
  us_log :: "log_record list"

definition UserStreamDataSource_init :: "LighterAuth \<Rightarrow> UserStreamDataSource" where
  "UserStreamDataSource_init a =
     \<lparr>us_auth = a, us_auth_token = None, us_current_backoff = INITIAL_BACKOFF,
      us_slept = [], us_log = []\<rparr>"

text \<open>\<open>_get_auth_token\<close>: always \<open>create_auth_token(expiry_seconds=3600)\<close>.\<close>

definition get_auth_token ::
  "SignerClient \<Rightarrow> real \<Rightarrow> UserStreamDataSource \<Rightarrow> (py_error + unit) \<times> UserStreamDataSource" where
  "get_auth_token signer now self =
     (case create_auth_token signer now 3600 (us_auth self) of
        (Inl e, a) \<Rightarrow> (Inl e, self\<lparr>us_auth := a\<rparr>)
      | (Inr token, a) \<Rightarrow> (Inr (), self\<lparr>us_auth := a, us_auth_token := Some token\<rparr>))"

definition us_back_off :: "UserStreamDataSource \<Rightarrow> UserStreamDataSource" where
  "us_back_off self =
     self\<lparr>us_log := us_log self @
              [Log WARNING ''Rate limit hit when connecting to user stream WebSocket. Backing off''
                 [JNum (us_current_backoff self)]],
           us_slept := us_slept self @ [us_current_backoff self],
           us_current_backoff := min (us_current_backoff self * BACKOFF_MULTIPLIER) MAX_BACKOFF\<rparr>"

definition us_connected :: "UserStreamDataSource \<Rightarrow> UserStreamDataSource" where
  "us_connected self =
     self\<lparr>us_current_backoff := INITIAL_BACKOFF,
          us_log := us_log self @ [Log INFO ''Successfully connected to user stream'' []]\<rparr>"

text \<open>
  The \<open>while True\<close> loop of the user stream's \<open>_connected_websocket_assistant\<close>,
  from attempt number \<open>n\<close>. After the sleep the token is created again; \<open>clock k\<close>
  is the time read by the token creation before attempt \<open>k\<close>. An exception of the
  signer there leaves the loop. The ping coroutine that a successful connect starts runs on
  its own and is not represented.
\<close>

partial_function (option) us_connect_loop ::
  "SignerClient \<Rightarrow> (nat \<Rightarrow> real) \<Rightarrow> (nat \<Rightarrow> connect_outcome) \<Rightarrow> nat \<Rightarrow> UserStreamDataSource
     \<Rightarrow> ((py_error + unit) \<times> UserStreamDataSource) option" where
  "us_connect_loop signer clock connect n self =
     (case connect n of
        ConnectOk \<Rightarrow> Some (Inr (), us_connected self)
      | ConnectFails msg \<Rightarrow>
          if is_rate_limit_error msg
          then (case get_auth_token signer (clock (Suc n)) (us_back_off self) of
                  (Inl e, self') \<Rightarrow> Some (Inl e, self')
                | (Inr u, self') \<Rightarrow> us_connect_loop signer clock connect (Suc n) self')
          else Some (Inl (ConnectError msg), self))"

text \<open>The whole method: a token first, then the loop from attempt 0.\<close>

definition us_connected_websocket_assistant ::
  "SignerClient \<Rightarrow> (nat \<Rightarrow> real) \<Rightarrow> (nat \<Rightarrow> connect_outcome) \<Rightarrow> UserStreamDataSource
     \<Rightarrow> ((py_error + unit) \<times> UserStreamDataSource) option" where
  "us_connected_websocket_assistant signer clock connect self =
     (case get_auth_token signer (clock 0) self of
        (Inl e, self') \<Rightarrow> Some (Inl e, self')
      | (Inr u, self') \<Rightarrow> us_connect_loop signer clock connect 0 self')"


section \<open>Order updates from the user stream\<close>

text \<open>
  The tracked orders. \<open>InFlightOrder\<close>, \<open>OrderUpdate\<close> and the order tracker belong
  to the framework the connectors are built on; the fields below are the ones the two
  \<open>_process_order_message\<close> methods read and write. \<open>all_updatable_orders\<close> is a
  dictionary from client order id to order, kept in insertion order. The attribute
  \<open>client_order_index\<close> may be missing on an order (\<open>hasattr\<close>).
\<close>

datatype OrderState = PENDING_CREATE | OPEN | PARTIALLY_FILLED | FILLED | CANCELED | FAILED

record InFlightOrder =
  client_order_id :: string
  exchange_order_id :: "string option"
  trading_pair :: string
  current_state :: OrderState
  client_order_index :: "json option"










text \<open>
  \<open>LighterExchange._process_order_message\<close>. The order is the first tracked one whose
  \<open>client_order_index\<close> attribute exists and is equal (Python's \<open>==\<close>) to the
  message's \<open>client_order_index\<close> (\<open>None\<close> when the message has none). The whole
  body is inside \<open>try\<close>: an exception is logged and the method returns.
\<close>

definition has_client_order_index :: "json \<Rightarrow> InFlightOrder \<Rightarrow> bool" where
  "has_client_order_index coi ord =
     (case client_order_index ord of None \<Rightarrow> False | Some v \<Rightarrow> py_eq v coi)"




section \<open>Expected waits and example inputs\<close>

text \<open>
  \<open>rate_limited_run connect n k\<close>: the \<open>k\<close> attempts from number \<open>n\<close> all fail
  with an error classified as a rate limit. \<open>backoff_waits b k\<close> and
  \<open>backoff_after b k\<close>: the waits of \<open>k\<close> such failures from backoff \<open>b\<close>, and the
  backoff stored after them.
\<close>

fun rate_limited_run :: "(nat \<Rightarrow> connect_outcome) \<Rightarrow> nat \<Rightarrow> nat \<Rightarrow> bool" where
  "rate_limited_run connect n 0 = True"
| "rate_limited_run connect n (Suc k) =
     ((case connect n of ConnectOk \<Rightarrow> False | ConnectFails msg \<Rightarrow> is_rate_limit_error msg)
      \<and> rate_limited_run connect (Suc n) k)"

fun backoff_waits :: "real \<Rightarrow> nat \<Rightarrow> real list" where
  "backoff_waits b 0 = []"
| "backoff_waits b (Suc k) = b # backoff_waits (min (b * BACKOFF_MULTIPLIER) MAX_BACKOFF) k"

fun backoff_after :: "real \<Rightarrow> nat \<Rightarrow> real" where
  "backoff_after b 0 = b"
| "backoff_after b (Suc k) = backoff_after (min (b * BACKOFF_MULTIPLIER) MAX_BACKOFF) k"

text \<open>
  A signer whose answers name the method that produced them, a cache holding a token
  that is valid until time 100, two requests, and three transports.
\<close>

definition example_signer :: SignerClient where
  "example_signer =
     \<lparr>create_auth_token_with_expiry = (\<lambda>now ttl. Inr ''fresh-token''),
      sign_create_order = (\<lambda>market_id is_buy base_amount price order_type time_in_force
          client_order_index n.
          Inr [(''signed'', JStr ''create_order''), (''nonce'', JNum (real_of_int n))]),
      sign_cancel_order = (\<lambda>market_id order_index n.
          Inr [(''signed'', JStr ''cancel_order''), (''nonce'', JNum (real_of_int n))]),
      sign_cancel_all_orders = (\<lambda>time_in_force n.
          Inr [(''signed'', JStr ''cancel_all_orders''), (''nonce'', JNum (real_of_int n))])\<rparr>"

definition cached_auth :: LighterAuth where
  "cached_auth = set_auth_token 0 ''cached-token'' 100 LighterAuth_init"

definition get_account_request :: RESTRequest where
  "get_account_request =
     \<lparr>rest_method = GET, rest_url = BASE_URL @ ACCOUNT_INFO_URL, rest_headers = None,
      rest_data = None\<rparr>"

definition post_memo_request :: RESTRequest where
  "post_memo_request =
     \<lparr>rest_method = POST, rest_url = BASE_URL @ CREATE_ORDER_URL, rest_headers = None,
      rest_data = Some [(''memo'', JStr ''x'')]\<rparr>"

definition subscribe_orders_request :: WSRequest where
  "subscribe_orders_request =
     \<lparr>ws_payload = [(''method'', JStr ''subscribe''), (''channel'', JStr ''orders''),
                   (''account_index'', JNum 123)],
      throttler_limit_id = None, is_auth_required = True\<rparr>"

definition three_rate_limits :: "nat \<Rightarrow> connect_outcome" where
  "three_rate_limits i = (if i < 3 then ConnectFails ''HTTP 429 Too Many Requests'' else ConnectOk)"

definition refused :: "nat \<Rightarrow> connect_outcome" where
  "refused i = ConnectFails ''Connection refused''"

definition always_rate_limited :: "nat \<Rightarrow> connect_outcome" where
  "always_rate_limited i = ConnectFails ''Rate limit exceeded''"





definition example_order :: InFlightOrder where
  "example_order =
     \<lparr>client_order_id = ''OID1'', exchange_order_id = Some ''E1'', trading_pair = ''ETH-USDC'',
      current_state = OPEN, client_order_index = Some (JNum 7)\<rparr>"





definition example_symbol_of :: "string \<Rightarrow> py_error + string" where
  "example_symbol_of tp = Inr tp"

definition example_market_ids :: "string \<rightharpoonup> json" where
  "example_market_ids = [''ETH-USDC'' \<mapsto> JNum 1]"

definition send_fails_at_999 :: "nat \<Rightarrow> py_error option" where
  "send_fails_at_999 k = (if k = 999 then Some (SendError ''connection closed'') else None)"


section \<open>Properties of the nonce manager\<close>

lemma next_calls_values:
  "fst (next_calls n m) = map (\<lambda>i. nm_last m + 1 + int i) [0..<n]"
proof (induction n arbitrary: m)
  case 0
  show ?case by simp
next
  case (Suc n)
  have "fst (next_calls (Suc n) m)
        = (nm_last m + 1) # fst (next_calls n (m\<lparr>nm_last := nm_last m + 1\<rparr>))"
    by (simp add: nonce_next_def split: prod.splits)
  also have "\<dots> = (nm_last m + 1) # map (\<lambda>i. nm_last m + 1 + 1 + int i) [0..<n]"
    by (simp add: Suc.IH)
  also have "\<dots> = map (\<lambda>i. nm_last m + 1 + int i) (0 # map Suc [0..<n])"
    by (simp add: comp_def add.assoc)
  also have "0 # map Suc [0..<n] = [0..<Suc n]"
    by (simp add: upt_conv_Cons map_Suc_upt del: upt_Suc)
  finally show ?case .
qed

lemma next_calls_state:
  "nm_last (snd (next_calls n m)) = nm_last m + int n"
proof (induction n arbitrary: m)
  case 0
  show ?case by simp
next
  case (Suc n)
  have "snd (next_calls (Suc n) m) = snd (next_calls n (m\<lparr>nm_last := nm_last m + 1\<rparr>))"
    by (simp add: nonce_next_def split: prod.splits)
  then show ?case
    by (simp add: Suc.IH)
qed

lemma next_calls_set:
  "set (fst (next_calls n m)) = {nm_last m + 1 .. nm_last m + int n}"
proof -
  have "set (fst (next_calls n m)) = (\<lambda>i. nm_last m + 1 + int i) ` {0..<n}"
    by (simp add: next_calls_values)
  also have "\<dots> = {nm_last m + 1 .. nm_last m + int n}"
  proof (rule set_eqI)
    fix x
    show "x \<in> (\<lambda>i. nm_last m + 1 + int i) ` {0..<n}
          \<longleftrightarrow> x \<in> {nm_last m + 1 .. nm_last m + int n}"
    proof
      assume "x \<in> (\<lambda>i. nm_last m + 1 + int i) ` {0..<n}"
      then show "x \<in> {nm_last m + 1 .. nm_last m + int n}" by auto
    next
      assume a: "x \<in> {nm_last m + 1 .. nm_last m + int n}"
      then have "nat (x - nm_last m - 1) \<in> {0..<n}" by auto
      moreover from a have "x = nm_last m + 1 + int (nat (x - nm_last m - 1))" by auto
      ultimately show "x \<in> (\<lambda>i. nm_last m + 1 + int i) ` {0..<n}" by blast
    qed
  qed
  finally show ?thesis .
qed

lemma next_calls_distinct: "distinct (fst (next_calls n m))"
  by (simp add: next_calls_values distinct_map inj_on_def)

text \<open>
  Claim C1. The counter starts at 0 and the first call of \<open>next\<close> returns 1; a call
  returns the counter plus one and stores what it returned, so a call directly after
  another returns exactly one more; and \<open>N\<close> successive calls from counter value
  \<open>k\<close> return the values \<open>k+1, \<dots>, k+N\<close> in this order, which is exactly the set
  \<open>{k+1, \<dots>, k+N}\<close>, with no value repeated.
\<close>

theorem nonce_next_monotonic:
  "nm_last NonceManager_init = 0
   \<and> fst (nonce_next NonceManager_init) = 1
   \<and> fst (nonce_next m) = nm_last m + 1
   \<and> nm_last (snd (nonce_next m)) = fst (nonce_next m)
   \<and> fst (nonce_next (snd (nonce_next m))) = fst (nonce_next m) + 1
   \<and> fst (next_calls N m) = map (\<lambda>i. nm_last m + 1 + int i) [0..<N]
   \<and> set (fst (next_calls N m)) = {nm_last m + 1 .. nm_last m + int N}
   \<and> distinct (fst (next_calls N m))
   \<and> length (fst (next_calls N m)) = N"
  using next_calls_values [of N m] next_calls_set [of N m] next_calls_distinct [of N m]
  by (simp add: NonceManager_init_def nonce_next_def)

text \<open>
  Claim C2. \<open>set v\<close> stores \<open>v\<close> exactly when \<open>v\<close> is greater than the counter and
  otherwise leaves the manager as it is; the counter never goes down; and \<open>next\<close>
  right after \<open>set v\<close> returns \<open>v + 1\<close> when \<open>v\<close> exceeded the counter and the old
  counter plus one when it did not.
\<close>

theorem nonce_set_floor_advance:
  "nm_last (nonce_set v m) = (if v > nm_last m then v else nm_last m)
   \<and> (nm_last (nonce_set v m) = v \<and> nonce_set v m \<noteq> m \<longleftrightarrow> v > nm_last m)
   \<and> (nonce_set v m = m \<longleftrightarrow> v \<le> nm_last m)
   \<and> nm_last m \<le> nm_last (nonce_set v m)
   \<and> fst (nonce_next (nonce_set v m)) = (if v > nm_last m then v + 1 else nm_last m + 1)"
proof -
  have neq: "v > nm_last m \<Longrightarrow> m\<lparr>nm_last := v\<rparr> \<noteq> m"
  proof
    assume gt: "v > nm_last m" and eq: "m\<lparr>nm_last := v\<rparr> = m"
    from eq have "nm_last (m\<lparr>nm_last := v\<rparr>) = nm_last m" by simp
    with gt show False by simp
  qed
  show ?thesis
    using neq by (auto simp: nonce_set_def nonce_next_def)
qed


section \<open>Properties of the substring test\<close>

lemma starts_with_iff: "starts_with s p \<longleftrightarrow> prefix p s"
  by (induction s p rule: starts_with.induct) auto

lemma contains_iff: "contains s p \<longleftrightarrow> sublist p s"
  by (induction s) (auto simp: starts_with_iff sublist_Cons_right)

lemma contains_sendTxBatch: "contains url ''/sendTxBatch'' \<Longrightarrow> contains url ''/sendTx''"
proof -
  assume "contains url ''/sendTxBatch''"
  then have "sublist ''/sendTxBatch'' url" by (simp add: contains_iff)
  moreover have "sublist ''/sendTx'' ''/sendTxBatch''"
    by (rule prefix_imp_sublist) simp
  ultimately have "sublist ''/sendTx'' url" by (rule sublist_order.order_trans[rotated])
  then show ?thesis by (simp add: contains_iff)
qed

section \<open>Properties of the signing dispatch\<close>

lemma add_auth_state:
  "snd (add_auth_to_params_post signer params url self)
     = self\<lparr>nonce := (nonce self)\<lparr>nm_last := nm_last (nonce self) + 1\<rparr>\<rparr>"
  by (simp add: add_auth_to_params_post_def get_next_nonce_def nonce_next_def Let_def)

lemma add_auth_other_url:
  "\<not> contains url ''/sendTx'' \<Longrightarrow>
   fst (add_auth_to_params_post signer params url self)
     = Inr (case params of None \<Rightarrow> [] | Some d \<Rightarrow> d)"
  using contains_sendTxBatch [of url]
  by (auto simp: add_auth_to_params_post_def get_next_nonce_def nonce_next_def Let_def)

text \<open>The three reachable outcomes for a URL that contains \<open>/sendTx\<close>.\<close>

lemma add_auth_create_order:
  "contains url ''/sendTx'' \<Longrightarrow> has_key ''market_id'' d \<Longrightarrow> has_key ''base_amount'' d \<Longrightarrow>
   fst (add_auth_to_params_post signer (Some d) url self)
     = sign_create_order_params signer d (nm_last (nonce self) + 1)"
  by (simp add: add_auth_to_params_post_def get_next_nonce_def nonce_next_def Let_def)

lemma add_auth_cancel_order:
  "contains url ''/sendTx'' \<Longrightarrow> \<not> (has_key ''market_id'' d \<and> has_key ''base_amount'' d) \<Longrightarrow>
   has_key ''order_index'' d \<Longrightarrow>
   fst (add_auth_to_params_post signer (Some d) url self)
     = sign_cancel_order_params signer d (nm_last (nonce self) + 1)"
  by (auto simp: add_auth_to_params_post_def get_next_nonce_def nonce_next_def Let_def)

lemma add_auth_default:
  "contains url ''/sendTx'' \<Longrightarrow> \<not> (has_key ''market_id'' d \<and> has_key ''base_amount'' d) \<Longrightarrow>
   \<not> has_key ''order_index'' d \<Longrightarrow>
   fst (add_auth_to_params_post signer (Some d) url self)
     = Inr [(''tx'', JDict d), (''nonce'', JNum (real_of_int (nm_last (nonce self) + 1)))]"
  by (auto simp: add_auth_to_params_post_def get_next_nonce_def nonce_next_def Let_def)

text \<open>
  The branch for \<open>/sendTxBatch\<close> is never taken: whatever the signer's
  \<open>sign_cancel_all_orders\<close> is, the result is the same.
\<close>

lemma cancel_all_never_called:
  "add_auth_to_params_post (signer\<lparr>sign_cancel_all_orders := f\<rparr>) params url self
     = add_auth_to_params_post signer params url self"
  using contains_sendTxBatch [of url]
  by (auto simp: add_auth_to_params_post_def get_next_nonce_def nonce_next_def Let_def
      sign_create_order_params_def sign_cancel_order_params_def)

text \<open>
  Claim C7, at the cancel-all request of the connector (\<open>CANCEL_ALL_ORDERS_URL\<close> on
  the main-net base URL, body \<open>{"time_in_force": 0}\<close>, first nonce). The claim sends a
  \<open>/sendTxBatch\<close> URL to the cancel-all signing path. The code tests
  \<open>"/sendTx" in url\<close> first, which every \<open>/sendTxBatch\<close> URL satisfies, so the
  request gets the unsigned wrapper \<open>{"tx": ..., "nonce": 1}\<close>, not what
  \<open>_sign_cancel_all_orders_params\<close> returns for it.
\<close>

theorem sendTxBatch_gets_default_wrapper:
  "add_auth_to_params_post example_signer (Some [(''time_in_force'', JNum 0)])
      (BASE_URL @ CANCEL_ALL_ORDERS_URL) LighterAuth_init
   = (Inr [(''tx'', JDict [(''time_in_force'', JNum 0)]), (''nonce'', JNum 1)],
      LighterAuth_init\<lparr>nonce := \<lparr>nm_last = 1\<rparr>\<rparr>)
   \<and> sign_cancel_all_orders_params example_signer [(''time_in_force'', JNum 0)] 1
       = Inr [(''signed'', JStr ''cancel_all_orders''), (''nonce'', JNum 1)]"
  by (simp add: add_auth_to_params_post_def get_next_nonce_def nonce_next_def Let_def
      BASE_URL_def CANCEL_ALL_ORDERS_URL_def LighterAuth_init_def NonceManager_init_def has_key_def
      sign_cancel_all_orders_params_def example_signer_def)

text \<open>
  Claim C10. Every call of \<open>add_auth_to_params_post\<close> leaves the authenticator with
  the nonce counter exactly one higher and nothing else changed, whatever the signer,
  the body and the URL are (also when the signer raises). For a URL without
  \<open>/sendTx\<close> the payload is the body as it came, with no nonce in it. So a POST
  to such an endpoint followed by a transaction POST gives the transaction the
  counter plus two: the nonce in between was used up.
\<close>

theorem add_auth_consumes_nonce:
  "nm_last (nonce (snd (add_auth_to_params_post signer params url self)))
     = nm_last (nonce self) + 1
   \<and> snd (add_auth_to_params_post signer params url self)
     = self\<lparr>nonce := (nonce self)\<lparr>nm_last := nm_last (nonce self) + 1\<rparr>\<rparr>
   \<and> (\<not> contains url ''/sendTx'' \<longrightarrow>
        fst (add_auth_to_params_post signer params url self)
          = Inr (case params of None \<Rightarrow> [] | Some d \<Rightarrow> d))
   \<and> (contains url2 ''/sendTx'' \<and> \<not> has_key ''market_id'' d2 \<and> \<not> has_key ''order_index'' d2 \<longrightarrow>
        fst (add_auth_to_params_post signer (Some d2) url2
               (snd (add_auth_to_params_post signer params url self)))
          = Inr [(''tx'', JDict d2), (''nonce'', JNum (real_of_int (nm_last (nonce self) + 2)))])"
  using add_auth_state [of signer params url self] add_auth_other_url [of url signer params self]
  by (auto simp: add_auth_to_params_post_def get_next_nonce_def nonce_next_def Let_def)

theorem add_auth_consumes_nonce_witness:
  "\<not> contains (BASE_URL @ ACCOUNT_INFO_URL) ''/sendTx''
   \<and> fst (add_auth_to_params_post example_signer (Some [(''leverage'', JNum 3)])
            (BASE_URL @ ACCOUNT_INFO_URL) LighterAuth_init)
       = Inr [(''leverage'', JNum 3)]
   \<and> nm_last (nonce (snd (add_auth_to_params_post example_signer (Some [(''leverage'', JNum 3)])
            (BASE_URL @ ACCOUNT_INFO_URL) LighterAuth_init))) = 1
   \<and> contains (BASE_URL @ CREATE_ORDER_URL) ''/sendTx''
   \<and> fst (add_auth_to_params_post example_signer (Some [(''memo'', JStr ''x'')])
            (BASE_URL @ CREATE_ORDER_URL)
            (snd (add_auth_to_params_post example_signer (Some [(''leverage'', JNum 3)])
               (BASE_URL @ ACCOUNT_INFO_URL) LighterAuth_init)))
       = Inr [(''tx'', JDict [(''memo'', JStr ''x'')]), (''nonce'', JNum 2)]"
proof -
  let ?p = "Some [(''leverage'', JNum 3)]"
  let ?u = "BASE_URL @ ACCOUNT_INFO_URL"
  let ?u2 = "BASE_URL @ CREATE_ORDER_URL"
  let ?d2 = "[(''memo'', JStr ''x'')]"
  note t = add_auth_consumes_nonce [of example_signer ?p ?u LighterAuth_init ?u2 ?d2]
  have h1: "\<not> contains ?u ''/sendTx''"
    by (simp add: BASE_URL_def ACCOUNT_INFO_URL_def)
  have h2: "contains ?u2 ''/sendTx'' \<and> \<not> has_key ''market_id'' ?d2
            \<and> \<not> has_key ''order_index'' ?d2"
    by (simp add: BASE_URL_def CREATE_ORDER_URL_def has_key_def)
  have a: "nm_last (nonce (snd (add_auth_to_params_post example_signer ?p ?u LighterAuth_init)))
           = nm_last (nonce LighterAuth_init) + 1"
    using t by (rule conjunct1)
  have b: "fst (add_auth_to_params_post example_signer ?p ?u LighterAuth_init)
           = Inr (case ?p of None \<Rightarrow> [] | Some d \<Rightarrow> d)"
    using t h1 by blast
  have c: "fst (add_auth_to_params_post example_signer (Some ?d2) ?u2
               (snd (add_auth_to_params_post example_signer ?p ?u LighterAuth_init)))
           = Inr [(''tx'', JDict ?d2),
                  (''nonce'', JNum (real_of_int (nm_last (nonce LighterAuth_init) + 2)))]"
    using t h2 by blast
  have k: "nm_last (nonce LighterAuth_init) = 0"
    by (simp add: LighterAuth_init_def NonceManager_init_def)
  show ?thesis
    using h1 h2 a b c by (simp add: k)
qed

section \<open>Properties of the token cache\<close>

lemma token_usable_iff:
  "token_usable now self \<longleftrightarrow>
     (\<exists>t. auth_token self = Some t \<and> t \<noteq> [] \<and> now < auth_token_expiry self)"
  by (simp add: token_usable_def split: option.splits)




section \<open>Properties of the authenticate methods\<close>

lemma add_auth_state_pair:
  "add_auth_to_params_post signer p u self = (r, self') \<Longrightarrow>
   self' = self\<lparr>nonce := (nonce self)\<lparr>nm_last := nm_last (nonce self) + 1\<rparr>\<rparr>"
  using add_auth_state [of signer p u self] by simp

lemma rest_authenticate_cache:
  "auth_token (snd (rest_authenticate signer now request self)) = auth_token self
   \<and> auth_token_expiry (snd (rest_authenticate signer now request self))
       = auth_token_expiry self"
  by (auto simp: rest_authenticate_def Let_def dest!: add_auth_state_pair
      split: option.splits prod.splits sum.splits)

lemma rest_authenticate_headers:
  assumes "rest_authenticate signer now request self = (Inr request', self')"
  shows "rest_headers request'
         = (case auth_token self of
              None \<Rightarrow> rest_headers request
            | Some t \<Rightarrow> if t \<noteq> [] \<and> now < auth_token_expiry self
                        then with_bearer t (rest_headers request)
                        else rest_headers request)"
  using assms
  by (auto simp: rest_authenticate_def Let_def
      split: option.splits prod.splits sum.splits if_splits)

lemma ws_authenticate_frame:
  "snd (ws_authenticate now request self) = self"
  by (simp add: ws_authenticate_def split: option.splits)

text \<open>
  With a usable token \<open>ws_authenticate\<close> does not get as far as writing a header:
  the read of \<open>request.headers\<close> raises.
\<close>

lemma ws_authenticate_usable:
  "token_usable now self \<Longrightarrow>
   ws_authenticate now request self = (Inl (AttributeError ''headers''), self)"
  by (auto simp: token_usable_def ws_authenticate_def split: option.splits)

text \<open>
  Claim C6 as stated fails in its second half: with the cached token expired (time
  200, expiry 100), \<open>rest_authenticate\<close> and \<open>ws_authenticate\<close> return the request as
  it came, without an \<open>Authorization\<close> header, and leave the expired token in the
  cache; no token is made.
\<close>

theorem authenticate_does_not_regenerate:
  "auth_token cached_auth = Some ''cached-token''
   \<and> auth_token_expiry cached_auth = 100
   \<and> \<not> token_usable 200 cached_auth
   \<and> rest_authenticate example_signer 200 get_account_request cached_auth
       = (Inr get_account_request, cached_auth)
   \<and> rest_headers get_account_request = None
   \<and> ws_authenticate 200 subscribe_orders_request cached_auth
       = (Inr subscribe_orders_request, cached_auth)"
  by (simp add: token_usable_def cached_auth_def set_auth_token_def rest_authenticate_def
      ws_authenticate_def get_account_request_def subscribe_orders_request_def
      LighterAuth_init_def Let_def)

text \<open>
  Claim C6, amended. \<open>rest_authenticate\<close> writes the header
  \<open>Authorization: Bearer <token>\<close> exactly when a non-empty token is cached and
  \<open>now\<close> is before its expiry, and leaves the other headers as they are; so an expired
  token is never attached. When the token is absent or expired, \<open>rest_authenticate\<close>
  and \<open>ws_authenticate\<close> pass the request on with nothing attached. Neither method
  makes a token: the cached token and its expiry are the same after every call.
  \<open>rest_authenticate\<close> returns the request for every method but POST, and for a POST
  whenever the signing of the body returns, with the signed payload as its data.
\<close>

theorem authenticate_attaches_unexpired_only:
  "(token_usable now self \<and> rest_authenticate signer now req self = (Inr req', self') \<longrightarrow>
      (\<exists>t h. auth_token self = Some t \<and> t \<noteq> [] \<and> now < auth_token_expiry self
             \<and> rest_headers req' = Some h
             \<and> h ''Authorization'' = Some (''Bearer '' @ t)
             \<and> (\<forall>k. k \<noteq> ''Authorization'' \<longrightarrow>
                    h k = (case rest_headers req of None \<Rightarrow> None | Some h0 \<Rightarrow> h0 k))))
   \<and> (\<not> token_usable now self \<and> rest_authenticate signer now req self = (Inr req', self') \<longrightarrow>
        rest_headers req' = rest_headers req)
   \<and> (\<not> token_usable now self \<longrightarrow> ws_authenticate now wreq self = (Inr wreq, self))
   \<and> (token_usable now self \<longleftrightarrow>
        (\<exists>t. auth_token self = Some t \<and> t \<noteq> [] \<and> now < auth_token_expiry self))
   \<and> (rest_method req \<noteq> POST \<longrightarrow>
        (\<exists>q. rest_authenticate signer now req self = (Inr q, self)))
   \<and> (rest_method req = POST
        \<and> fst (add_auth_to_params_post signer (rest_data req) (rest_url req) self) = Inr payload \<longrightarrow>
        (\<exists>q. fst (rest_authenticate signer now req self) = Inr q
              \<and> rest_data q = Some payload))
   \<and> auth_token (snd (rest_authenticate signer now req self)) = auth_token self
   \<and> auth_token_expiry (snd (rest_authenticate signer now req self)) = auth_token_expiry self
   \<and> snd (ws_authenticate now wreq self) = self"
proof -
  have g1: "rest_method req \<noteq> POST \<longrightarrow>
        (\<exists>q. rest_authenticate signer now req self = (Inr q, self))"
    by (simp add: rest_authenticate_def Let_def split: option.splits)
  have g2: "rest_method req = POST
        \<and> fst (add_auth_to_params_post signer (rest_data req) (rest_url req) self) = Inr payload \<longrightarrow>
        (\<exists>q. fst (rest_authenticate signer now req self) = Inr q
              \<and> rest_data q = Some payload)"
    by (cases "add_auth_to_params_post signer (rest_data req) (rest_url req) self")
       (auto simp: rest_authenticate_def Let_def split: option.splits)
  have r1: "token_usable now self \<and> rest_authenticate signer now req self = (Inr req', self') \<longrightarrow>
      (\<exists>t h. auth_token self = Some t \<and> t \<noteq> [] \<and> now < auth_token_expiry self
             \<and> rest_headers req' = Some h
             \<and> h ''Authorization'' = Some (''Bearer '' @ t)
             \<and> (\<forall>k. k \<noteq> ''Authorization'' \<longrightarrow>
                    h k = (case rest_headers req of None \<Rightarrow> None | Some h0 \<Rightarrow> h0 k)))"
  proof
    assume a: "token_usable now self \<and> rest_authenticate signer now req self = (Inr req', self')"
    then obtain t where t: "auth_token self = Some t" "t \<noteq> []" "now < auth_token_expiry self"
      by (auto simp: token_usable_iff)
    from a have "rest_authenticate signer now req self = (Inr req', self')" by simp
    from rest_authenticate_headers [OF this] t
    have h: "rest_headers req' = with_bearer t (rest_headers req)"
      by simp
    let ?h = "(case rest_headers req of None \<Rightarrow> Map.empty | Some h0 \<Rightarrow> h0)
                (''Authorization'' \<mapsto> ''Bearer '' @ t)"
    have "rest_headers req' = Some ?h"
      using h by (simp add: with_bearer_def)
    moreover have "?h ''Authorization'' = Some (''Bearer '' @ t)"
      by simp
    moreover have "\<forall>k. k \<noteq> ''Authorization'' \<longrightarrow>
                    ?h k = (case rest_headers req of None \<Rightarrow> None | Some h0 \<Rightarrow> h0 k)"
      by (simp split: option.splits)
    ultimately show "\<exists>t h. auth_token self = Some t \<and> t \<noteq> [] \<and> now < auth_token_expiry self
             \<and> rest_headers req' = Some h
             \<and> h ''Authorization'' = Some (''Bearer '' @ t)
             \<and> (\<forall>k. k \<noteq> ''Authorization'' \<longrightarrow>
                    h k = (case rest_headers req of None \<Rightarrow> None | Some h0 \<Rightarrow> h0 k))"
      using t by blast
  qed
  have r2: "\<not> token_usable now self \<and> rest_authenticate signer now req self = (Inr req', self') \<longrightarrow>
        rest_headers req' = rest_headers req"
  proof
    assume a: "\<not> token_usable now self \<and> rest_authenticate signer now req self = (Inr req', self')"
    then have "rest_authenticate signer now req self = (Inr req', self')" by simp
    from rest_authenticate_headers [OF this] a
    show "rest_headers req' = rest_headers req"
      by (auto simp: token_usable_def split: option.splits if_splits)
  qed
  have ws: "\<not> token_usable now self \<longrightarrow> ws_authenticate now wreq self = (Inr wreq, self)"
    by (auto simp: token_usable_def ws_authenticate_def split: option.splits)
  show ?thesis
    using r1 r2 ws g1 g2 token_usable_iff [of now self]
      rest_authenticate_cache [of signer now req self] ws_authenticate_frame [of now wreq self]
    by blast
qed

theorem authenticate_attaches_unexpired_only_witness:
  "token_usable 10 cached_auth
   \<and> rest_authenticate example_signer 10 get_account_request cached_auth
       = (Inr (get_account_request
                 \<lparr>rest_headers := Some [''Authorization'' \<mapsto> ''Bearer cached-token'']\<rparr>),
          cached_auth)
   \<and> \<not> token_usable 100 cached_auth
   \<and> rest_authenticate example_signer 100 get_account_request cached_auth
       = (Inr get_account_request, cached_auth)
   \<and> ws_authenticate 100 subscribe_orders_request cached_auth
       = (Inr subscribe_orders_request, cached_auth)
   \<and> map_sum id rest_data (fst (rest_authenticate example_signer 10 post_memo_request cached_auth))
       = Inr (Some [(''tx'', JDict [(''memo'', JStr ''x'')]), (''nonce'', JNum 1)])"
proof -
  have u: "token_usable 10 cached_auth" and n: "\<not> token_usable 100 cached_auth"
    and tok: "auth_token cached_auth = Some ''cached-token''"
    by (simp_all add: token_usable_def cached_auth_def set_auth_token_def LighterAuth_init_def)
  have get: "rest_method get_account_request \<noteq> POST"
    and hd: "rest_headers get_account_request = None"
    by (simp_all add: get_account_request_def)
  have "\<exists>q. rest_authenticate example_signer 10 get_account_request cached_auth
             = (Inr q, cached_auth)"
    using authenticate_attaches_unexpired_only
      [of 10 cached_auth example_signer get_account_request get_account_request cached_auth
          subscribe_orders_request "[]"] get
    by blast
  then obtain q where q: "rest_authenticate example_signer 10 get_account_request cached_auth
                          = (Inr q, cached_auth)"
    by blast
  from authenticate_attaches_unexpired_only
    [of 10 cached_auth example_signer get_account_request q cached_auth
        subscribe_orders_request] u q
  obtain t h where th: "auth_token cached_auth = Some t" "rest_headers q = Some h"
    "h ''Authorization'' = Some (''Bearer '' @ t)"
    "\<forall>k. k \<noteq> ''Authorization'' \<longrightarrow>
         h k = (case rest_headers get_account_request of None \<Rightarrow> None | Some h0 \<Rightarrow> h0 k)"
    by blast
  have t: "t = ''cached-token''" using th(1) tok by simp
  have "h = [''Authorization'' \<mapsto> ''Bearer cached-token'']"
  proof (rule ext)
    fix k
    show "h k = [''Authorization'' \<mapsto> ''Bearer cached-token''] k"
      using th(3) th(4) t hd by (cases "k = ''Authorization''") simp_all
  qed
  with th(2) have qh: "rest_headers q = Some [''Authorization'' \<mapsto> ''Bearer cached-token'']"
    by simp
  have rest_of_q: "q = get_account_request\<lparr>rest_headers := rest_headers q\<rparr>"
    using q get
    by (auto simp: rest_authenticate_def Let_def tok split: if_splits)
  have a: "rest_authenticate example_signer 10 get_account_request cached_auth
       = (Inr (get_account_request
                 \<lparr>rest_headers := Some [''Authorization'' \<mapsto> ''Bearer cached-token'']\<rparr>),
          cached_auth)"
    using q rest_of_q qh by simp
  have "\<exists>q'. rest_authenticate example_signer 100 get_account_request cached_auth
             = (Inr q', cached_auth)"
    using get by (simp add: rest_authenticate_def Let_def split: option.splits)
  then obtain q' where q': "rest_authenticate example_signer 100 get_account_request cached_auth
                          = (Inr q', cached_auth)"
    by blast
  note t100 = authenticate_attaches_unexpired_only
    [of 100 cached_auth example_signer get_account_request q' cached_auth
        subscribe_orders_request]
  have "rest_headers q' = rest_headers get_account_request"
    using t100 n q' by blast
  moreover have "q' = get_account_request\<lparr>rest_headers := rest_headers q'\<rparr>"
    using q' get
    by (auto simp: rest_authenticate_def Let_def tok split: if_splits)
  ultimately have b: "rest_authenticate example_signer 100 get_account_request cached_auth
       = (Inr get_account_request, cached_auth)"
    using q' by simp
  have c: "ws_authenticate 100 subscribe_orders_request cached_auth
           = (Inr subscribe_orders_request, cached_auth)"
    using t100 n by blast
  have p: "rest_method post_memo_request = POST
           \<and> fst (add_auth_to_params_post example_signer (rest_data post_memo_request)
                   (rest_url post_memo_request) cached_auth)
               = Inr [(''tx'', JDict [(''memo'', JStr ''x'')]), (''nonce'', JNum 1)]"
    by (simp add: post_memo_request_def add_auth_to_params_post_def get_next_nonce_def
        nonce_next_def Let_def BASE_URL_def CREATE_ORDER_URL_def has_key_def cached_auth_def
        set_auth_token_def LighterAuth_init_def NonceManager_init_def)
  have "\<exists>q. fst (rest_authenticate example_signer 10 post_memo_request cached_auth) = Inr q
             \<and> rest_data q = Some [(''tx'', JDict [(''memo'', JStr ''x'')]), (''nonce'', JNum 1)]"
    using authenticate_attaches_unexpired_only
      [of 10 cached_auth example_signer post_memo_request post_memo_request cached_auth
          subscribe_orders_request
          "[(''tx'', JDict [(''memo'', JStr ''x'')]), (''nonce'', JNum 1)]"] p
    by blast
  then have d: "map_sum id rest_data
                  (fst (rest_authenticate example_signer 10 post_memo_request cached_auth))
                = Inr (Some [(''tx'', JDict [(''memo'', JStr ''x'')]), (''nonce'', JNum 1)])"
    by auto
  show ?thesis
    using u n a b c d by simp
qed

section \<open>Properties of the connect loops\<close>

lemma is_rate_limit_error_iff:
  "is_rate_limit_error msg \<longleftrightarrow>
     contains (lower msg) ''429'' \<or> contains (lower msg) ''too many''
       \<or> contains (lower msg) ''rate limit''"
  by (simp add: is_rate_limit_error_def Let_def)

lemma ob_connect_ok:
  "connect n = ConnectOk \<Longrightarrow>
   ob_connected_websocket_assistant connect n self = Some (Inr (), ob_connected self)"
  by (subst ob_connected_websocket_assistant.simps) simp

lemma ob_connect_raise:
  "connect n = ConnectFails msg \<Longrightarrow> \<not> is_rate_limit_error msg \<Longrightarrow>
   ob_connected_websocket_assistant connect n self = Some (Inl (ConnectError msg), self)"
  by (subst ob_connected_websocket_assistant.simps) simp

lemma ob_connect_retry:
  "connect n = ConnectFails msg \<Longrightarrow> is_rate_limit_error msg \<Longrightarrow>
   ob_connected_websocket_assistant connect n self
     = ob_connected_websocket_assistant connect (Suc n) (ob_back_off self)"
  by (subst ob_connected_websocket_assistant.simps) simp

lemma ob_connect_run:
  "rate_limited_run connect n k \<Longrightarrow>
   ob_connected_websocket_assistant connect n self
     = ob_connected_websocket_assistant connect (n + k) ((ob_back_off ^^ k) self)"
proof (induction k arbitrary: n self)
  case 0
  show ?case by simp
next
  case (Suc k)
  from Suc.prems obtain msg where m: "connect n = ConnectFails msg" "is_rate_limit_error msg"
    and r: "rate_limited_run connect (Suc n) k"
    by (auto split: connect_outcome.splits)
  have "ob_connected_websocket_assistant connect n self
        = ob_connected_websocket_assistant connect (Suc n) (ob_back_off self)"
    using m by (rule ob_connect_retry)
  also have "\<dots> = ob_connected_websocket_assistant connect (Suc n + k)
                     ((ob_back_off ^^ k) (ob_back_off self))"
    using r by (rule Suc.IH)
  finally show ?case by (simp add: funpow_swap1)
qed

lemma ob_back_off_pow_slept:
  "length (ob_slept ((ob_back_off ^^ k) self)) = length (ob_slept self) + k"
  by (induction k) (auto simp: ob_back_off_def)

lemma ob_connect_never:
  assumes "\<And>i. rate_limited_run connect i 1"
  shows "ob_connected_websocket_assistant connect n self = None"
proof -
  have "\<not> (\<forall>i. rate_limited_run c i 1)"
    if "ob_connected_websocket_assistant c m s = Some y" for c m s y
  proof (rule ob_connected_websocket_assistant.raw_induct
      [where P = "\<lambda>c m s y. \<not> (\<forall>i. rate_limited_run c i 1)", OF _ that])
    fix f c m s y
    assume IH: "\<And>c m s y. f c m s = Some y \<Longrightarrow> \<not> (\<forall>i. rate_limited_run c i 1)"
      and body: "(case c m of ConnectOk \<Rightarrow> Some (Inr (), ob_connected s)
                  | ConnectFails msg \<Rightarrow>
                      if is_rate_limit_error msg then f c (Suc m) (ob_back_off s)
                      else Some (Inl (ConnectError msg), s)) = Some y"
    show "\<not> (\<forall>i. rate_limited_run c i 1)"
    proof
      assume a: "\<forall>i. rate_limited_run c i 1"
      then have "rate_limited_run c m 1" by blast
      then obtain msg where "c m = ConnectFails msg" "is_rate_limit_error msg"
        by (auto split: connect_outcome.splits)
      with body have "f c (Suc m) (ob_back_off s) = Some y" by simp
      then have "\<not> (\<forall>i. rate_limited_run c i 1)" by (rule IH)
      with a show False by blast
    qed
  qed
  note never = this
  show ?thesis
  proof (cases "ob_connected_websocket_assistant connect n self")
    case None
    then show ?thesis .
  next
    case (Some y)
    then have "\<not> (\<forall>i. rate_limited_run connect i 1)" by (rule never)
    with assms show ?thesis by blast
  qed
qed


lemma ob_back_off_pow:
  "ob_slept ((ob_back_off ^^ k) self) = ob_slept self @ backoff_waits (ob_current_backoff self) k
   \<and> ob_current_backoff ((ob_back_off ^^ k) self) = backoff_after (ob_current_backoff self) k"
proof (induction k arbitrary: self)
  case 0
  show ?case by simp
next
  case (Suc k)
  have eq: "(ob_back_off ^^ Suc k) self = (ob_back_off ^^ k) (ob_back_off self)"
    by (simp add: funpow_swap1)
  have h1: "ob_slept (ob_back_off self) = ob_slept self @ [ob_current_backoff self]"
    and h2: "ob_current_backoff (ob_back_off self)
             = min (ob_current_backoff self * BACKOFF_MULTIPLIER) MAX_BACKOFF"
    by (simp_all add: ob_back_off_def)
  show ?case
    unfolding eq using Suc.IH [of "ob_back_off self"] by (simp add: h1 h2)
qed

lemma length_backoff_waits: "length (backoff_waits b k) = k"
  by (induction k arbitrary: b) auto

lemma ob_connect_returns:
  assumes "rate_limited_run connect n k" and "connect (n + k) = ConnectOk"
  shows "\<exists>t'. ob_connected_websocket_assistant connect n t = Some (Inr (), t')
              \<and> ob_slept t' = ob_slept t @ backoff_waits (ob_current_backoff t) k
              \<and> ob_current_backoff t' = INITIAL_BACKOFF"
proof -
  have "ob_connected_websocket_assistant connect n t
        = Some (Inr (), ob_connected ((ob_back_off ^^ k) t))"
    using assms by (simp add: ob_connect_run ob_connect_ok)
  moreover have "ob_slept (ob_connected ((ob_back_off ^^ k) t))
                 = ob_slept t @ backoff_waits (ob_current_backoff t) k"
    using ob_back_off_pow [of k t] by (simp add: ob_connected_def)
  moreover have "ob_current_backoff (ob_connected ((ob_back_off ^^ k) t)) = INITIAL_BACKOFF"
    by (simp add: ob_connected_def)
  ultimately show ?thesis by blast
qed

text \<open>The same for the loop of the user stream, where the token is made again after each wait.\<close>

lemma get_auth_token_frame:
  "us_current_backoff (snd (get_auth_token signer now s)) = us_current_backoff s
   \<and> us_slept (snd (get_auth_token signer now s)) = us_slept s
   \<and> us_log (snd (get_auth_token signer now s)) = us_log s"
  by (simp add: get_auth_token_def split: prod.splits sum.splits)

lemma get_auth_token_ok:
  "create_auth_token_with_expiry signer now 3600 = Inr tok \<Longrightarrow>
   fst (get_auth_token signer now s) = Inr ()"
  by (simp add: get_auth_token_def create_auth_token_def)

lemma us_connect_ok:
  "connect n = ConnectOk \<Longrightarrow>
   us_connect_loop signer clock connect n self = Some (Inr (), us_connected self)"
  by (subst us_connect_loop.simps) simp

lemma us_connect_raise:
  "connect n = ConnectFails msg \<Longrightarrow> \<not> is_rate_limit_error msg \<Longrightarrow>
   us_connect_loop signer clock connect n self = Some (Inl (ConnectError msg), self)"
  by (subst us_connect_loop.simps) simp

lemma us_connect_retry:
  "connect n = ConnectFails msg \<Longrightarrow> is_rate_limit_error msg \<Longrightarrow>
   fst (get_auth_token signer (clock (Suc n)) (us_back_off self)) = Inr () \<Longrightarrow>
   us_connect_loop signer clock connect n self
     = us_connect_loop signer clock connect (Suc n)
         (snd (get_auth_token signer (clock (Suc n)) (us_back_off self)))"
  by (subst us_connect_loop.simps)
     (cases "get_auth_token signer (clock (Suc n)) (us_back_off self)", auto)

lemma us_connect_token_error:
  "connect n = ConnectFails msg \<Longrightarrow> is_rate_limit_error msg \<Longrightarrow>
   fst (get_auth_token signer (clock (Suc n)) (us_back_off self)) = Inl e \<Longrightarrow>
   us_connect_loop signer clock connect n self
     = Some (Inl e, snd (get_auth_token signer (clock (Suc n)) (us_back_off self)))"
  by (subst us_connect_loop.simps)
     (cases "get_auth_token signer (clock (Suc n)) (us_back_off self)", auto)

lemma us_connect_run:
  assumes ok: "\<forall>now. \<exists>tok. create_auth_token_with_expiry signer now 3600 = Inr tok"
  shows "rate_limited_run connect n k \<Longrightarrow>
   \<exists>s'. us_connect_loop signer clock connect n s = us_connect_loop signer clock connect (n + k) s'
        \<and> us_slept s' = us_slept s @ backoff_waits (us_current_backoff s) k
        \<and> us_current_backoff s' = backoff_after (us_current_backoff s) k"
proof (induction k arbitrary: n s)
  case 0
  show ?case by (rule exI [of _ s]) simp
next
  case (Suc k)
  from Suc.prems obtain msg where m: "connect n = ConnectFails msg" "is_rate_limit_error msg"
    and r: "rate_limited_run connect (Suc n) k"
    by (auto split: connect_outcome.splits)
  let ?s1 = "snd (get_auth_token signer (clock (Suc n)) (us_back_off s))"
  from ok obtain tok where "create_auth_token_with_expiry signer (clock (Suc n)) 3600 = Inr tok"
    by blast
  then have g: "fst (get_auth_token signer (clock (Suc n)) (us_back_off s)) = Inr ()"
    by (rule get_auth_token_ok)
  have step: "us_connect_loop signer clock connect n s
              = us_connect_loop signer clock connect (Suc n) ?s1"
    using m g by (rule us_connect_retry)
  have f1: "us_slept ?s1 = us_slept s @ [us_current_backoff s]"
    and f2: "us_current_backoff ?s1 = min (us_current_backoff s * BACKOFF_MULTIPLIER) MAX_BACKOFF"
    by (simp_all add: get_auth_token_frame us_back_off_def)
  from Suc.IH [OF r, of ?s1] obtain s' where
    a: "us_connect_loop signer clock connect (Suc n) ?s1
        = us_connect_loop signer clock connect (Suc n + k) s'"
    and b: "us_slept s' = us_slept ?s1 @ backoff_waits (us_current_backoff ?s1) k"
    and c: "us_current_backoff s' = backoff_after (us_current_backoff ?s1) k"
    by blast
  have "us_connect_loop signer clock connect n s
        = us_connect_loop signer clock connect (n + Suc k) s'"
    using step a by simp
  moreover have "us_slept s' = us_slept s @ backoff_waits (us_current_backoff s) (Suc k)"
    using b f1 f2 by simp
  moreover have "us_current_backoff s' = backoff_after (us_current_backoff s) (Suc k)"
    using c f2 by simp
  ultimately show ?case by blast
qed

lemma us_connect_returns:
  assumes "\<forall>now. \<exists>tok. create_auth_token_with_expiry signer now 3600 = Inr tok"
    and "rate_limited_run connect n k" and "connect (n + k) = ConnectOk"
  shows "\<exists>s'. us_connect_loop signer clock connect n s = Some (Inr (), s')
              \<and> us_slept s' = us_slept s @ backoff_waits (us_current_backoff s) k
              \<and> us_current_backoff s' = INITIAL_BACKOFF"
proof -
  from us_connect_run [OF assms(1) assms(2), of clock s] obtain s1 where
    a: "us_connect_loop signer clock connect n s = us_connect_loop signer clock connect (n + k) s1"
    and b: "us_slept s1 = us_slept s @ backoff_waits (us_current_backoff s) k"
    by blast
  have "us_connect_loop signer clock connect n s = Some (Inr (), us_connected s1)"
    using a assms(3) by (simp add: us_connect_ok)
  moreover have "us_slept (us_connected s1) = us_slept s @ backoff_waits (us_current_backoff s) k"
    using b by (simp add: us_connected_def)
  moreover have "us_current_backoff (us_connected s1) = INITIAL_BACKOFF"
    by (simp add: us_connected_def)
  ultimately show ?thesis by blast
qed

lemma us_connect_never:
  assumes ok: "\<forall>now. \<exists>tok. create_auth_token_with_expiry signer now 3600 = Inr tok"
    and rl: "\<forall>i. rate_limited_run connect i 1"
  shows "us_connect_loop signer clock connect n self = None"
proof -
  let ?Q = "\<lambda>sg c. (\<forall>now. \<exists>tok. create_auth_token_with_expiry sg now 3600 = Inr tok)
                    \<and> (\<forall>i. rate_limited_run c i 1)"
  have never: "\<not> ?Q sg c" if "us_connect_loop sg ck c m s = Some y" for sg ck c m s y
  proof (rule us_connect_loop.raw_induct [where P = "\<lambda>sg ck c m s y. \<not> ?Q sg c", OF _ that])
    fix f sg ck c m s y
    assume IH: "\<And>sg ck c m s y. f sg ck c m s = Some y \<Longrightarrow> \<not> ?Q sg c"
      and body: "(case c m of ConnectOk \<Rightarrow> Some (Inr (), us_connected s)
                  | ConnectFails msg \<Rightarrow>
                      if is_rate_limit_error msg
                      then (case get_auth_token sg (ck (Suc m)) (us_back_off s) of
                              (Inl e, self') \<Rightarrow> Some (Inl e, self')
                            | (Inr u, self') \<Rightarrow> f sg ck c (Suc m) self')
                      else Some (Inl (ConnectError msg), s)) = Some y"
    show "\<not> ?Q sg c"
    proof
      assume q: "?Q sg c"
      then have "rate_limited_run c m 1" by blast
      then obtain msg where m: "c m = ConnectFails msg" "is_rate_limit_error msg"
        by (auto split: connect_outcome.splits)
      from q obtain tok where "create_auth_token_with_expiry sg (ck (Suc m)) 3600 = Inr tok"
        by blast
      then have "fst (get_auth_token sg (ck (Suc m)) (us_back_off s)) = Inr ()"
        by (rule get_auth_token_ok)
      with body m have "f sg ck c (Suc m) (snd (get_auth_token sg (ck (Suc m)) (us_back_off s))) = Some y"
        by (cases "get_auth_token sg (ck (Suc m)) (us_back_off s)") auto
      then have "\<not> ?Q sg c" by (rule IH)
      with q show False by blast
    qed
  qed
  show ?thesis
  proof (cases "us_connect_loop signer clock connect n self")
    case None
    then show ?thesis .
  next
    case (Some y)
    then have "\<not> ?Q signer connect" by (rule never)
    with ok rl show ?thesis by blast
  qed
qed

lemma waits_1_2_4: "backoff_waits INITIAL_BACKOFF 3 = [1, 2, 4]"
  by (simp add: numeral_3_eq_3 INITIAL_BACKOFF_def BACKOFF_MULTIPLIER_def MAX_BACKOFF_def)


lemma us_method_eq:
  assumes "create_auth_token_with_expiry signer (clock 0) 3600 = Inr tok"
  shows "us_connected_websocket_assistant signer clock connect s
         = us_connect_loop signer clock connect 0 (snd (get_auth_token signer (clock 0) s))"
  using get_auth_token_ok [OF assms, of s]
  by (cases "get_auth_token signer (clock 0) s")
     (auto simp: us_connected_websocket_assistant_def)

text \<open>
  Claim C3. With the constants of the connector (initial backoff 1, multiplier 2, cap
  60), a data source whose stored backoff is the initial one, and three attempts in a
  row that fail with a rate-limit error before one that succeeds, the connect loop
  returns the assistant after sleeping exactly 1, 2 and 4 seconds, and the stored
  backoff is 1 again. This holds for the user stream loop (as long as the signer makes
  the token after each wait) and for the order book loop, from any attempt number, so
  also for the failure sequence after a reset, and for the whole method of the user
  stream, which makes a token before the first attempt. Each wait is the backoff before it is
  multiplied, the stored value is the multiplied one capped at 60, and a successful
  connect stores 1 whatever the backoff was.
\<close>

theorem backoff_growth_and_reset:
  assumes "\<forall>now. \<exists>tok. create_auth_token_with_expiry signer now 3600 = Inr tok"
    and "us_current_backoff s = INITIAL_BACKOFF"
    and "ob_current_backoff t = INITIAL_BACKOFF"
    and "rate_limited_run connect n 3"
    and "connect (n + 3) = ConnectOk"
  shows "(\<exists>s'. us_connect_loop signer clock connect n s = Some (Inr (), s')
              \<and> us_slept s' = us_slept s @ [1, 2, 4]
              \<and> us_current_backoff s' = 1)
       \<and> (\<exists>t'. ob_connected_websocket_assistant connect n t = Some (Inr (), t')
              \<and> ob_slept t' = ob_slept t @ [1, 2, 4]
              \<and> ob_current_backoff t' = 1)
       \<and> (n = 0 \<longrightarrow>
            (\<exists>s'. us_connected_websocket_assistant signer clock connect s = Some (Inr (), s')
                  \<and> us_slept s' = us_slept s @ [1, 2, 4]
                  \<and> us_current_backoff s' = 1))
       \<and> us_slept (us_back_off s0) = us_slept s0 @ [us_current_backoff s0]
       \<and> us_current_backoff (us_back_off s0) = min (us_current_backoff s0 * 2) 60
       \<and> us_current_backoff (us_connected s0) = 1"
proof -
  have w: "backoff_waits 1 3 = [1, 2, 4]"
    by (simp add: numeral_3_eq_3 BACKOFF_MULTIPLIER_def MAX_BACKOFF_def)
  have i: "INITIAL_BACKOFF = 1" by (simp add: INITIAL_BACKOFF_def)
  have a: "\<exists>s'. us_connect_loop signer clock connect n s = Some (Inr (), s')
              \<and> us_slept s' = us_slept s @ [1, 2, 4]
              \<and> us_current_backoff s' = 1"
    using us_connect_returns [OF assms(1) assms(4) assms(5), of clock s] assms(2)
    by (simp add: w i)
  have b: "\<exists>t'. ob_connected_websocket_assistant connect n t = Some (Inr (), t')
              \<and> ob_slept t' = ob_slept t @ [1, 2, 4]
              \<and> ob_current_backoff t' = 1"
    using ob_connect_returns [OF assms(4) assms(5), of t] assms(3)
    by (simp add: w i)
  have c: "us_slept (us_back_off s0) = us_slept s0 @ [us_current_backoff s0]
       \<and> us_current_backoff (us_back_off s0) = min (us_current_backoff s0 * 2) 60
       \<and> us_current_backoff (us_connected s0) = 1"
    by (simp add: us_back_off_def us_connected_def INITIAL_BACKOFF_def BACKOFF_MULTIPLIER_def
        MAX_BACKOFF_def)
  have d: "n = 0 \<longrightarrow>
            (\<exists>s'. us_connected_websocket_assistant signer clock connect s = Some (Inr (), s')
                  \<and> us_slept s' = us_slept s @ [1, 2, 4]
                  \<and> us_current_backoff s' = 1)"
  proof
    assume z: "n = 0"
    let ?s1 = "snd (get_auth_token signer (clock 0) s)"
    from assms(1) obtain tok where "create_auth_token_with_expiry signer (clock 0) 3600 = Inr tok"
      by blast
    then have e: "us_connected_websocket_assistant signer clock connect s
                  = us_connect_loop signer clock connect 0 ?s1"
      by (rule us_method_eq)
    have f: "us_slept ?s1 = us_slept s" "us_current_backoff ?s1 = us_current_backoff s"
      by (simp_all add: get_auth_token_frame)
    have r: "rate_limited_run connect 0 3" and o: "connect (0 + 3) = ConnectOk"
      using assms(4) assms(5) z by simp_all
    show "\<exists>s'. us_connected_websocket_assistant signer clock connect s = Some (Inr (), s')
               \<and> us_slept s' = us_slept s @ [1, 2, 4]
               \<and> us_current_backoff s' = 1"
      unfolding e
      using us_connect_returns [OF assms(1) r o, of clock ?s1] assms(2)
      by (simp add: f w i)
  qed
  from a b c d show ?thesis by blast
qed

lemma three_rate_limits_run: "rate_limited_run three_rate_limits 0 3"
  by (simp add: numeral_3_eq_3 three_rate_limits_def is_rate_limit_error_def Let_def lower_def
      lower_char_def)

theorem backoff_growth_and_reset_witness:
  "map_option fst (us_connect_loop example_signer real three_rate_limits 0
        (UserStreamDataSource_init LighterAuth_init)) = Some (Inr ())
   \<and> map_option (us_slept \<circ> snd) (us_connect_loop example_signer real three_rate_limits 0
        (UserStreamDataSource_init LighterAuth_init)) = Some [1, 2, 4]
   \<and> map_option (us_current_backoff \<circ> snd) (us_connect_loop example_signer real
        three_rate_limits 0 (UserStreamDataSource_init LighterAuth_init)) = Some 1
   \<and> map_option (ob_slept \<circ> snd) (ob_connected_websocket_assistant three_rate_limits 0
        OrderBookDataSource_init) = Some [1, 2, 4]
   \<and> map_option (ob_current_backoff \<circ> snd) (ob_connected_websocket_assistant
        three_rate_limits 0 OrderBookDataSource_init) = Some 1
   \<and> map_option (us_slept \<circ> snd) (us_connected_websocket_assistant example_signer real
        three_rate_limits (UserStreamDataSource_init LighterAuth_init)) = Some [1, 2, 4]"
proof -
  have h1: "\<forall>now. \<exists>tok. create_auth_token_with_expiry example_signer now 3600 = Inr tok"
    by (simp add: example_signer_def)
  have h2: "us_current_backoff (UserStreamDataSource_init LighterAuth_init) = INITIAL_BACKOFF"
    by (simp add: UserStreamDataSource_init_def)
  have h3: "ob_current_backoff OrderBookDataSource_init = INITIAL_BACKOFF"
    by (simp add: OrderBookDataSource_init_def)
  have h4: "rate_limited_run three_rate_limits 0 3"
    by (rule three_rate_limits_run)
  have h5: "three_rate_limits (0 + 3) = ConnectOk"
    by (simp add: three_rate_limits_def)
  note t = backoff_growth_and_reset [OF h1 h2 h3 h4 h5, of real]
  have e1: "us_slept (UserStreamDataSource_init LighterAuth_init) = []"
    by (simp add: UserStreamDataSource_init_def)
  have e2: "ob_slept OrderBookDataSource_init = []"
    by (simp add: OrderBookDataSource_init_def)
  from t obtain s' where
    "us_connect_loop example_signer real three_rate_limits 0
        (UserStreamDataSource_init LighterAuth_init) = Some (Inr (), s')"
    "us_slept s' = [1, 2, 4]" "us_current_backoff s' = 1"
    unfolding e1 by auto
  moreover from t obtain t' where
    "ob_connected_websocket_assistant three_rate_limits 0 OrderBookDataSource_init
       = Some (Inr (), t')"
    "ob_slept t' = [1, 2, 4]" "ob_current_backoff t' = 1"
    unfolding e2 by auto
  moreover from t obtain s'' where
    "us_connected_websocket_assistant example_signer real three_rate_limits
        (UserStreamDataSource_init LighterAuth_init) = Some (Inr (), s'')"
    "us_slept s'' = [1, 2, 4]"
    unfolding e1 by auto
  ultimately show ?thesis by simp
qed


text \<open>
  Claim C4. In both connect loops: a connect failure whose lower-cased message
  contains none of \<open>429\<close>, \<open>too many\<close>, \<open>rate limit\<close> leaves the loop at once
  with that failure and the state untouched (no sleep, no further attempt). A failure
  whose message contains one of them is followed by the next attempt, after the
  backoff step (in the user stream loop, after the token was made again). The number
  of such retries is not bounded: for every \<open>k\<close>, \<open>k\<close> rate-limited attempts
  followed by a successful one end in the return of the assistant after \<open>k\<close> sleeps,
  and when every attempt is rate-limited the loop never returns.
\<close>

theorem only_rate_limit_failures_retried:
  "(connect n = ConnectFails msg
      \<and> \<not> contains (lower msg) ''429'' \<and> \<not> contains (lower msg) ''too many''
      \<and> \<not> contains (lower msg) ''rate limit'' \<longrightarrow>
        us_connect_loop signer clock connect n s = Some (Inl (ConnectError msg), s)
        \<and> ob_connected_websocket_assistant connect n t = Some (Inl (ConnectError msg), t))
   \<and> (connect n = ConnectFails msg
      \<and> (contains (lower msg) ''429'' \<or> contains (lower msg) ''too many''
          \<or> contains (lower msg) ''rate limit'') \<longrightarrow>
        ob_connected_websocket_assistant connect n t
          = ob_connected_websocket_assistant connect (Suc n) (ob_back_off t)
        \<and> (fst (get_auth_token signer (clock (Suc n)) (us_back_off s)) = Inr () \<longrightarrow>
             us_connect_loop signer clock connect n s
               = us_connect_loop signer clock connect (Suc n)
                   (snd (get_auth_token signer (clock (Suc n)) (us_back_off s)))))
   \<and> (rate_limited_run connect n k \<and> connect (n + k) = ConnectOk \<longrightarrow>
        (\<exists>t'. ob_connected_websocket_assistant connect n t = Some (Inr (), t')
              \<and> length (ob_slept t') = length (ob_slept t) + k)
        \<and> ((\<forall>now. \<exists>tok. create_auth_token_with_expiry signer now 3600 = Inr tok) \<longrightarrow>
             (\<exists>s'. us_connect_loop signer clock connect n s = Some (Inr (), s')
                   \<and> length (us_slept s') = length (us_slept s) + k)))
   \<and> ((\<forall>i. rate_limited_run connect i 1) \<longrightarrow>
        ob_connected_websocket_assistant connect n t = None
        \<and> ((\<forall>now. \<exists>tok. create_auth_token_with_expiry signer now 3600 = Inr tok) \<longrightarrow>
             us_connect_loop signer clock connect n s = None))"
proof -
  have a: "connect n = ConnectFails msg
      \<and> \<not> contains (lower msg) ''429'' \<and> \<not> contains (lower msg) ''too many''
      \<and> \<not> contains (lower msg) ''rate limit'' \<longrightarrow>
        us_connect_loop signer clock connect n s = Some (Inl (ConnectError msg), s)
        \<and> ob_connected_websocket_assistant connect n t = Some (Inl (ConnectError msg), t)"
    by (simp add: us_connect_raise ob_connect_raise is_rate_limit_error_iff)
  have b: "connect n = ConnectFails msg
      \<and> (contains (lower msg) ''429'' \<or> contains (lower msg) ''too many''
          \<or> contains (lower msg) ''rate limit'') \<longrightarrow>
        ob_connected_websocket_assistant connect n t
          = ob_connected_websocket_assistant connect (Suc n) (ob_back_off t)
        \<and> (fst (get_auth_token signer (clock (Suc n)) (us_back_off s)) = Inr () \<longrightarrow>
             us_connect_loop signer clock connect n s
               = us_connect_loop signer clock connect (Suc n)
                   (snd (get_auth_token signer (clock (Suc n)) (us_back_off s))))"
  proof
    assume h: "connect n = ConnectFails msg
      \<and> (contains (lower msg) ''429'' \<or> contains (lower msg) ''too many''
          \<or> contains (lower msg) ''rate limit'')"
    then have c: "connect n = ConnectFails msg" and r: "is_rate_limit_error msg"
      by (simp_all add: is_rate_limit_error_iff)
    show "ob_connected_websocket_assistant connect n t
          = ob_connected_websocket_assistant connect (Suc n) (ob_back_off t)
        \<and> (fst (get_auth_token signer (clock (Suc n)) (us_back_off s)) = Inr () \<longrightarrow>
             us_connect_loop signer clock connect n s
               = us_connect_loop signer clock connect (Suc n)
                   (snd (get_auth_token signer (clock (Suc n)) (us_back_off s))))"
      using ob_connect_retry [of connect n msg t, OF c r]
        us_connect_retry [of connect n msg signer clock s, OF c r] by blast
  qed
  have c: "rate_limited_run connect n k \<and> connect (n + k) = ConnectOk \<longrightarrow>
        (\<exists>t'. ob_connected_websocket_assistant connect n t = Some (Inr (), t')
              \<and> length (ob_slept t') = length (ob_slept t) + k)
        \<and> ((\<forall>now. \<exists>tok. create_auth_token_with_expiry signer now 3600 = Inr tok) \<longrightarrow>
             (\<exists>s'. us_connect_loop signer clock connect n s = Some (Inr (), s')
                   \<and> length (us_slept s') = length (us_slept s) + k))"
  proof
    assume h: "rate_limited_run connect n k \<and> connect (n + k) = ConnectOk"
    then have r: "rate_limited_run connect n k" and o: "connect (n + k) = ConnectOk"
      by simp_all
    from ob_connect_returns [OF r o, of t] obtain t' where
      "ob_connected_websocket_assistant connect n t = Some (Inr (), t')"
      "ob_slept t' = ob_slept t @ backoff_waits (ob_current_backoff t) k"
      by blast
    then have p1: "\<exists>t'. ob_connected_websocket_assistant connect n t = Some (Inr (), t')
              \<and> length (ob_slept t') = length (ob_slept t) + k"
      by (simp add: length_backoff_waits)
    have p2: "(\<forall>now. \<exists>tok. create_auth_token_with_expiry signer now 3600 = Inr tok) \<longrightarrow>
             (\<exists>s'. us_connect_loop signer clock connect n s = Some (Inr (), s')
                   \<and> length (us_slept s') = length (us_slept s) + k)"
    proof
      assume ok: "\<forall>now. \<exists>tok. create_auth_token_with_expiry signer now 3600 = Inr tok"
      from us_connect_returns [OF ok r o, of clock s] obtain s' where
        "us_connect_loop signer clock connect n s = Some (Inr (), s')"
        "us_slept s' = us_slept s @ backoff_waits (us_current_backoff s) k"
        by blast
      then show "\<exists>s'. us_connect_loop signer clock connect n s = Some (Inr (), s')
                   \<and> length (us_slept s') = length (us_slept s) + k"
        by (simp add: length_backoff_waits)
    qed
    from p1 p2 show "(\<exists>t'. ob_connected_websocket_assistant connect n t = Some (Inr (), t')
              \<and> length (ob_slept t') = length (ob_slept t) + k)
        \<and> ((\<forall>now. \<exists>tok. create_auth_token_with_expiry signer now 3600 = Inr tok) \<longrightarrow>
             (\<exists>s'. us_connect_loop signer clock connect n s = Some (Inr (), s')
                   \<and> length (us_slept s') = length (us_slept s) + k))"
      by blast
  qed
  have d: "(\<forall>i. rate_limited_run connect i 1) \<longrightarrow>
        ob_connected_websocket_assistant connect n t = None
        \<and> ((\<forall>now. \<exists>tok. create_auth_token_with_expiry signer now 3600 = Inr tok) \<longrightarrow>
             us_connect_loop signer clock connect n s = None)"
    using ob_connect_never [of connect n t] us_connect_never [of signer connect clock n s]
    by blast
  from a b c d show ?thesis by blast
qed

lemma refused_not_rate_limit:
  "\<not> contains (lower ''Connection refused'') ''429''
   \<and> \<not> contains (lower ''Connection refused'') ''too many''
   \<and> \<not> contains (lower ''Connection refused'') ''rate limit''"
  by (simp add: lower_def lower_char_def)

lemma always_rate_limited_run: "rate_limited_run always_rate_limited i k"
  by (induction k arbitrary: i)
     (simp_all add: always_rate_limited_def is_rate_limit_error_def Let_def lower_def
        lower_char_def)

theorem only_rate_limit_failures_retried_witness:
  "us_connect_loop example_signer real refused 0 (UserStreamDataSource_init LighterAuth_init)
     = Some (Inl (ConnectError ''Connection refused''),
             UserStreamDataSource_init LighterAuth_init)
   \<and> ob_connected_websocket_assistant refused 0 OrderBookDataSource_init
     = Some (Inl (ConnectError ''Connection refused''), OrderBookDataSource_init)
   \<and> map_option fst (ob_connected_websocket_assistant three_rate_limits 0
        OrderBookDataSource_init) = Some (Inr ())
   \<and> map_option (length \<circ> ob_slept \<circ> snd) (ob_connected_websocket_assistant
        three_rate_limits 0 OrderBookDataSource_init) = Some 3
   \<and> map_option (length \<circ> us_slept \<circ> snd) (us_connect_loop example_signer real
        three_rate_limits 0 (UserStreamDataSource_init LighterAuth_init)) = Some 3
   \<and> ob_connected_websocket_assistant always_rate_limited 0 OrderBookDataSource_init = None
   \<and> us_connect_loop example_signer real always_rate_limited 0
        (UserStreamDataSource_init LighterAuth_init) = None
   \<and> ob_connected_websocket_assistant always_rate_limited 0 OrderBookDataSource_init
       = ob_connected_websocket_assistant always_rate_limited 1
           (ob_back_off OrderBookDataSource_init)"
proof -
  let ?s = "UserStreamDataSource_init LighterAuth_init"
  let ?t = "OrderBookDataSource_init"
  have ok: "\<forall>now. \<exists>tok. create_auth_token_with_expiry example_signer now 3600 = Inr tok"
    by (simp add: example_signer_def)
  have r0: "refused 0 = ConnectFails ''Connection refused''"
    by (simp add: refused_def)
  note t1 = only_rate_limit_failures_retried
    [of refused 0 "''Connection refused''" example_signer real ?s ?t 0]
  have a: "us_connect_loop example_signer real refused 0 ?s
             = Some (Inl (ConnectError ''Connection refused''), ?s)
           \<and> ob_connected_websocket_assistant refused 0 ?t
             = Some (Inl (ConnectError ''Connection refused''), ?t)"
    using t1 r0 refused_not_rate_limit by blast
  have run: "rate_limited_run three_rate_limits 0 3"
    by (simp add: numeral_3_eq_3 three_rate_limits_def is_rate_limit_error_def Let_def lower_def
        lower_char_def)
  have c3: "three_rate_limits (0 + 3) = ConnectOk"
    by (simp add: three_rate_limits_def)
  note t2 = only_rate_limit_failures_retried
    [of three_rate_limits 0 "''HTTP 429 Too Many Requests''" example_signer real ?s ?t 3]
  have b1: "\<exists>t'. ob_connected_websocket_assistant three_rate_limits 0 ?t = Some (Inr (), t')
              \<and> length (ob_slept t') = length (ob_slept ?t) + 3"
    using t2 run c3 by blast
  have b2: "\<exists>s'. us_connect_loop example_signer real three_rate_limits 0 ?s = Some (Inr (), s')
              \<and> length (us_slept s') = length (us_slept ?s) + 3"
    using t2 run c3 ok by blast
  have l0: "length (ob_slept ?t) = 0" "length (us_slept ?s) = 0"
    by (simp_all add: OrderBookDataSource_init_def UserStreamDataSource_init_def)
  have all: "\<forall>i. rate_limited_run always_rate_limited i 1"
    using always_rate_limited_run by blast
  have m: "always_rate_limited 0 = ConnectFails ''Rate limit exceeded''"
    by (simp add: always_rate_limited_def)
  have mk: "contains (lower ''Rate limit exceeded'') ''rate limit''"
    by (simp add: lower_def lower_char_def)
  note t3 = only_rate_limit_failures_retried
    [of always_rate_limited 0 "''Rate limit exceeded''" example_signer real ?s ?t 0]
  have d1: "ob_connected_websocket_assistant always_rate_limited 0 ?t = None"
    using t3 all by blast
  have d2: "us_connect_loop example_signer real always_rate_limited 0 ?s = None"
    using t3 all ok by blast
  have d3: "ob_connected_websocket_assistant always_rate_limited 0 ?t
            = ob_connected_websocket_assistant always_rate_limited (Suc 0) (ob_back_off ?t)"
    using t3 m mk by blast
  from b1 obtain t' where
    "ob_connected_websocket_assistant three_rate_limits 0 ?t = Some (Inr (), t')"
    "length (ob_slept t') = 3"
    unfolding l0 by auto
  moreover from b2 obtain s' where
    "us_connect_loop example_signer real three_rate_limits 0 ?s = Some (Inr (), s')"
    "length (us_slept s') = 3"
    unfolding l0 by auto
  ultimately show ?thesis
    using a d1 d2 d3 by simp
qed



section \<open>Properties of the subscription loop\<close>

lemma ob_send_ok:
  "send (ob_send_calls s) = None \<Longrightarrow>
   ob_send send payload s
     = (Inr (), s\<lparr>ob_sent := ob_sent s @ [payload], ob_send_calls := Suc (ob_send_calls s)\<rparr>)"
  by (simp add: ob_send_def)

lemma ob_send_fail:
  "send (ob_send_calls s) = Some e \<Longrightarrow>
   ob_send send payload s = (Inl e, s\<lparr>ob_send_calls := Suc (ob_send_calls s)\<rparr>)"
  by (simp add: ob_send_def)

lemma ob_send_count:
  "subscription_count (snd (ob_send send payload s)) = subscription_count s"
  by (simp add: ob_send_def split: option.splits)

lemma subscribe_loop_at_limit:
  "subscription_count s \<ge> WS_MAX_SUBSCRIPTIONS \<Longrightarrow>
   subscribe_loop symbol_of ids send (tp # rest) s
     = (Inr (), s\<lparr>ob_log := ob_log s @
         [Log WARNING ''Approaching WebSocket subscription limit. Skipping additional subscriptions.''
            [JNum (real_of_int WS_MAX_SUBSCRIPTIONS)]]\<rparr>)"
  by simp

lemma subscribe_loop_sent_at_limit:
  "subscription_count s \<ge> WS_MAX_SUBSCRIPTIONS \<Longrightarrow>
   ob_sent (snd (subscribe_loop symbol_of ids send pairs s)) = ob_sent s
   \<and> subscription_count (snd (subscribe_loop symbol_of ids send pairs s)) = subscription_count s
   \<and> fst (subscribe_loop symbol_of ids send pairs s) = Inr ()"
  by (cases pairs) simp_all

text \<open>One pair, below the limit, both sends return.\<close>

lemma subscribe_loop_pair_ok:
  assumes "subscription_count s < WS_MAX_SUBSCRIPTIONS"
    and "symbol_of tp = Inr symbol"
    and "send (ob_send_calls s) = None" and "send (Suc (ob_send_calls s)) = None"
  shows "\<exists>s'. subscribe_loop symbol_of ids send (tp # rest) s
               = subscribe_loop symbol_of ids send rest s'
             \<and> subscription_count s' = subscription_count s + 2
             \<and> ob_send_calls s' = ob_send_calls s + 2
             \<and> length (ob_sent s') = length (ob_sent s) + 2"
  using assms
  apply (simp add: ob_send_def Let_def)
  apply (rule exI, intro conjI, rule refl)
    apply simp_all
  done

lemma subscribe_loop_pair_second_fails:
  assumes "subscription_count s < WS_MAX_SUBSCRIPTIONS"
    and "symbol_of tp = Inr symbol"
    and "send (ob_send_calls s) = None" and "send (Suc (ob_send_calls s)) = Some e"
  shows "fst (subscribe_loop symbol_of ids send (tp # rest) s) = Inl e
         \<and> subscription_count (snd (subscribe_loop symbol_of ids send (tp # rest) s))
             = subscription_count s + 1
         \<and> ob_send_calls (snd (subscribe_loop symbol_of ids send (tp # rest) s))
             = ob_send_calls s + 2
         \<and> length (ob_sent (snd (subscribe_loop symbol_of ids send (tp # rest) s)))
             = length (ob_sent s) + 1"
  using assms by (simp add: ob_send_def Let_def)

lemma subscribe_loop_fails_mid_pair:
  assumes "symbol_of tp = Inr symbol"
  shows "subscription_count s + 2 * int n < WS_MAX_SUBSCRIPTIONS \<Longrightarrow>
         (\<forall>k < ob_send_calls s + 2 * n + 1. send k = None) \<Longrightarrow>
         send (ob_send_calls s + 2 * n + 1) = Some e \<Longrightarrow>
         fst (subscribe_loop symbol_of ids send (replicate (Suc n) tp) s) = Inl e
         \<and> subscription_count (snd (subscribe_loop symbol_of ids send (replicate (Suc n) tp) s))
             = subscription_count s + 2 * int n + 1
         \<and> ob_send_calls (snd (subscribe_loop symbol_of ids send (replicate (Suc n) tp) s))
             = ob_send_calls s + 2 * n + 2
         \<and> length (ob_sent (snd (subscribe_loop symbol_of ids send (replicate (Suc n) tp) s)))
             = length (ob_sent s) + 2 * n + 1"
proof (induction n arbitrary: s)
  case 0
  have "subscription_count s < WS_MAX_SUBSCRIPTIONS" using 0(1) by simp
  moreover have "send (ob_send_calls s) = None" using 0(2) by simp
  moreover have "send (Suc (ob_send_calls s)) = Some e" using 0(3) by simp
  ultimately show ?case
    using subscribe_loop_pair_second_fails [of s symbol_of tp symbol send e ids "[]"] assms
    by simp
next
  case (Suc n)
  have lt: "subscription_count s < WS_MAX_SUBSCRIPTIONS" using Suc.prems(1) by simp
  have s0: "send (ob_send_calls s) = None" and s1: "send (Suc (ob_send_calls s)) = None"
    using Suc.prems(2) by simp_all
  from subscribe_loop_pair_ok
    [of s symbol_of tp symbol send ids "replicate (Suc n) tp", OF lt assms s0 s1]
  obtain s' where
    eq: "subscribe_loop symbol_of ids send (tp # replicate (Suc n) tp) s
         = subscribe_loop symbol_of ids send (replicate (Suc n) tp) s'"
    and c: "subscription_count s' = subscription_count s + 2"
    and k: "ob_send_calls s' = ob_send_calls s + 2"
    and l: "length (ob_sent s') = length (ob_sent s) + 2"
    by blast
  have p1: "subscription_count s' + 2 * int n < WS_MAX_SUBSCRIPTIONS"
    using Suc.prems(1) c by simp
  have p2: "\<forall>k < ob_send_calls s' + 2 * n + 1. send k = None"
    using Suc.prems(2) k by simp
  have p3: "send (ob_send_calls s' + 2 * n + 1) = Some e"
    using Suc.prems(3) k by simp
  have r: "replicate (Suc (Suc n)) tp = tp # replicate (Suc n) tp" by simp
  show ?case
    unfolding r eq using Suc.IH [OF p1 p2 p3] c k l by simp
qed

lemma subscribe_channels_proj:
  "subscription_count (snd (subscribe_channels symbol_of ids send pairs s))
     = subscription_count (snd (subscribe_loop symbol_of ids send pairs s))
   \<and> ob_sent (snd (subscribe_channels symbol_of ids send pairs s))
     = ob_sent (snd (subscribe_loop symbol_of ids send pairs s))
   \<and> ob_send_calls (snd (subscribe_channels symbol_of ids send pairs s))
     = ob_send_calls (snd (subscribe_loop symbol_of ids send pairs s))
   \<and> fst (subscribe_channels symbol_of ids send pairs s)
     = fst (subscribe_loop symbol_of ids send pairs s)"
  by (simp add: subscribe_channels_def split: prod.splits sum.splits)

text \<open>From an even count at most the limit, one call stays at or below the limit.\<close>

lemma subscribe_loop_even_bound:
  "even (subscription_count s) \<Longrightarrow> subscription_count s \<le> WS_MAX_SUBSCRIPTIONS \<Longrightarrow>
   subscription_count (snd (subscribe_loop symbol_of ids send pairs s)) \<le> WS_MAX_SUBSCRIPTIONS"
proof (induction pairs arbitrary: s)
  case Nil
  then show ?case by simp
next
  case (Cons tp rest)
  show ?case
  proof (cases "subscription_count s \<ge> WS_MAX_SUBSCRIPTIONS")
    case True
    then show ?thesis using Cons.prems by simp
  next
    case False
    then have lt: "subscription_count s + 2 \<le> WS_MAX_SUBSCRIPTIONS"
      using Cons.prems by (auto simp: WS_MAX_SUBSCRIPTIONS_def elim!: evenE)
    show ?thesis
      using False lt Cons.prems Cons.IH
      by (auto simp: ob_send_def Let_def split: sum.splits option.splits)
  qed
qed

lemma subscribe_loop_bound:
  "subscription_count s \<le> WS_MAX_SUBSCRIPTIONS + 1 \<Longrightarrow>
   subscription_count (snd (subscribe_loop symbol_of ids send pairs s)) \<le> WS_MAX_SUBSCRIPTIONS + 1"
proof (induction pairs arbitrary: s)
  case Nil
  then show ?case by simp
next
  case (Cons tp rest)
  show ?case
    using Cons.prems Cons.IH
    by (auto simp: ob_send_def Let_def split: sum.splits option.splits)
qed

text \<open>
  Claim C9, at a run the data source can go through. A fresh data source subscribes
  500 trading pairs; the transport raises on the 1000th send, the second send of the
  last pair, so the call ends with that exception and the counter at 999. The next
  call (the counter is kept across calls) finds 999 below the limit, sends both
  messages of its one pair and returns with the counter, and the number of subscribe
  messages sent, at 1001. The claim says the number never exceeds the ceiling of 1000.
\<close>

theorem subscription_count_exceeds_ceiling:
  "fst (subscribe_channels example_symbol_of example_market_ids send_fails_at_999
         (replicate 500 ''ETH-USDC'') OrderBookDataSource_init)
     = Inl (SendError ''connection closed'')
   \<and> subscription_count (snd (subscribe_channels example_symbol_of example_market_ids
         send_fails_at_999 (replicate 500 ''ETH-USDC'') OrderBookDataSource_init)) = 999
   \<and> fst (subscribe_channels example_symbol_of example_market_ids send_fails_at_999
         [''ETH-USDC'']
         (snd (subscribe_channels example_symbol_of example_market_ids send_fails_at_999
            (replicate 500 ''ETH-USDC'') OrderBookDataSource_init))) = Inr ()
   \<and> subscription_count (snd (subscribe_channels example_symbol_of example_market_ids
         send_fails_at_999 [''ETH-USDC'']
         (snd (subscribe_channels example_symbol_of example_market_ids send_fails_at_999
            (replicate 500 ''ETH-USDC'') OrderBookDataSource_init)))) = 1001
   \<and> length (ob_sent (snd (subscribe_channels example_symbol_of example_market_ids
         send_fails_at_999 [''ETH-USDC'']
         (snd (subscribe_channels example_symbol_of example_market_ids send_fails_at_999
            (replicate 500 ''ETH-USDC'') OrderBookDataSource_init))))) = 1001
   \<and> WS_MAX_SUBSCRIPTIONS = 1000"
proof -
  let ?s0 = "OrderBookDataSource_init"
  let ?run = "\<lambda>pairs s. subscribe_channels example_symbol_of example_market_ids
                 send_fails_at_999 pairs s"
  let ?loop = "\<lambda>pairs s. subscribe_loop example_symbol_of example_market_ids
                 send_fails_at_999 pairs s"
  have sym: "example_symbol_of ''ETH-USDC'' = Inr ''ETH-USDC''"
    by (simp add: example_symbol_of_def)
  have i0: "subscription_count ?s0 = 0" "ob_send_calls ?s0 = 0" "length (ob_sent ?s0) = 0"
    by (simp_all add: OrderBookDataSource_init_def)
  have n: "(500::nat) = Suc 499" by simp
  have r: "replicate 500 ''ETH-USDC'' = replicate (Suc 499) ''ETH-USDC''"
    by (simp only: n)
  have first:
    "fst (?loop (replicate (Suc 499) ''ETH-USDC'') ?s0) = Inl (SendError ''connection closed'')
     \<and> subscription_count (snd (?loop (replicate (Suc 499) ''ETH-USDC'') ?s0))
         = subscription_count ?s0 + 2 * int 499 + 1
     \<and> ob_send_calls (snd (?loop (replicate (Suc 499) ''ETH-USDC'') ?s0))
         = ob_send_calls ?s0 + 2 * 499 + 2
     \<and> length (ob_sent (snd (?loop (replicate (Suc 499) ''ETH-USDC'') ?s0)))
         = length (ob_sent ?s0) + 2 * 499 + 1"
    by (rule subscribe_loop_fails_mid_pair
          [of example_symbol_of "''ETH-USDC''" "''ETH-USDC''" ?s0 499 send_fails_at_999
              "SendError ''connection closed''" example_market_ids, OF sym])
       (simp_all add: i0 WS_MAX_SUBSCRIPTIONS_def send_fails_at_999_def)
  let ?s1 = "snd (?run (replicate 500 ''ETH-USDC'') ?s0)"
  have s1: "fst (?run (replicate 500 ''ETH-USDC'') ?s0) = Inl (SendError ''connection closed'')"
    "subscription_count ?s1 = 999" "ob_send_calls ?s1 = 1000" "length (ob_sent ?s1) = 999"
    using first unfolding r by (simp_all add: subscribe_channels_proj i0)
  have lt: "subscription_count ?s1 < WS_MAX_SUBSCRIPTIONS"
    by (simp add: s1 WS_MAX_SUBSCRIPTIONS_def)
  have n0: "send_fails_at_999 (ob_send_calls ?s1) = None"
    and n1: "send_fails_at_999 (Suc (ob_send_calls ?s1)) = None"
    by (simp_all add: s1 send_fails_at_999_def)
  from subscribe_loop_pair_ok
    [of ?s1 example_symbol_of "''ETH-USDC''" "''ETH-USDC''" send_fails_at_999
        example_market_ids "[]", OF lt sym n0 n1]
  obtain s2 where
    "?loop [''ETH-USDC''] ?s1 = ?loop [] s2"
    "subscription_count s2 = subscription_count ?s1 + 2"
    "length (ob_sent s2) = length (ob_sent ?s1) + 2"
    by blast
  then have second: "fst (?loop [''ETH-USDC''] ?s1) = Inr ()"
    "subscription_count (snd (?loop [''ETH-USDC''] ?s1)) = 1001"
    "length (ob_sent (snd (?loop [''ETH-USDC''] ?s1))) = 1001"
    by (simp_all add: s1)
  show ?thesis
    using s1 second by (simp add: subscribe_channels_proj WS_MAX_SUBSCRIPTIONS_def)
qed


section \<open>Properties of the order message handlers\<close>





text \<open>
  The comparison is Python's: a tracked index 1 is found by a message whose index is
  \<open>true\<close>.
\<close>

lemma spot_finds_by_python_equality:
  "find (has_client_order_index (JBool True))
     [example_order\<lparr>client_order_index := Some (JNum 1)\<rparr>]
   = Some (example_order\<lparr>client_order_index := Some (JNum 1)\<rparr>)"
  by (simp add: has_client_order_index_def)


end
